theory Spec2Isabelle
  imports Main "HOL-Library.AList"
begin

section \<open>JavaScript values used by the relay\<close>

text \<open>
  A JavaScript string is a sequence of UTF-16 code units; \<open>charCodeAt\<close> reads one unit.
  String literals of the source are embedded with \<open>js\<close>.
\<close>

type_synonym jsstring = "nat list"

definition js :: "string \<Rightarrow> jsstring" where
  "js s = map of_char s"

text \<open>
  The result of \<open>JSON.parse\<close>. A number is kept as the text \<open>Number.prototype.toString\<close>
  renders it (numbers are opaque payload for the relay); an object is the list of its own
  properties, in the order in which they are enumerated.
\<close>

datatype json =
    JNull
  | JBool bool
  | JNum jsstring
  | JStr jsstring
  | JArr "json list"
  | JObj "(jsstring \<times> json) list"

text \<open>Property read \<open>data.k\<close> on a non-null value; \<open>None\<close> is \<open>undefined\<close>.\<close>

fun getProp :: "json \<Rightarrow> jsstring \<Rightarrow> json option" where
  "getProp (JObj kvs) k = map_of kvs k"
| "getProp _ k = None"

section \<open>Fingerprint function\<close>

text \<open>\<open>ToInt32\<close>, applied by \<open><<\<close> and \<open>&\<close> to their operands and results.\<close>

definition toInt32 :: "int \<Rightarrow> int" where
  "toInt32 x = (x + 2 ^ 31) mod 2 ^ 32 - 2 ^ 31"

definition shl :: "int \<Rightarrow> nat \<Rightarrow> int" where
  "shl x n = toInt32 (toInt32 x * 2 ^ n)"

definition band :: "int \<Rightarrow> int \<Rightarrow> int" where
  "band x y = and (toInt32 x) (toInt32 y)"

text \<open>\<open>Number.prototype.toString(16)\<close> on an integer.\<close>

definition hexDigit :: "nat \<Rightarrow> nat" where
  "hexDigit d = (if d < 10 then 48 + d else 87 + d)"

function hexDigits :: "int \<Rightarrow> jsstring" where
  "hexDigits n =
     (if n < 16 then [hexDigit (nat n)] else hexDigits (n div 16) @ [hexDigit (nat (n mod 16))])"
  by pat_completeness auto
termination
  by (relation "measure nat") auto

declare hexDigits.simps [simp del]

definition toString16 :: "int \<Rightarrow> jsstring" where
  "toString16 n = (if n < 0 then js ''-'' @ hexDigits (- n) else hexDigits n)"

text \<open>
  \<^verbatim>\<open>
  function signChallenge(challenge, key) {
    let hash = 0;
    const combined = challenge + key;
    for (let i = 0; i < combined.length; i++) {
      const char = combined.charCodeAt(i);
      hash = ((hash << 5) - hash) + char;
      hash = hash & hash;
    }
    return hash.toString(16);
  }\<close>
  The loop over the indices of \<open>combined\<close> is a recursion over its code units.
\<close>

fun signLoop :: "int \<Rightarrow> jsstring \<Rightarrow> int" where
  "signLoop hash [] = hash"
| "signLoop hash (char # rest) = signLoop (band ((shl hash 5 - hash) + int char) ((shl hash 5 - hash) + int char)) rest"

definition signChallenge :: "jsstring \<Rightarrow> jsstring \<Rightarrow> jsstring" where
  "signChallenge challenge key = (let combined = challenge @ key in toString16 (signLoop 0 combined))"

text \<open>
  \<open>verifyChallenge(challenge, response, accessKey)\<close>: strict equality of the response
  with the digest. The response is whatever the message carried (\<open>None\<close> is
  \<open>undefined\<close>); only a string can be strictly equal to a string.
\<close>

definition verifyChallenge :: "jsstring \<Rightarrow> json option \<Rightarrow> jsstring \<Rightarrow> bool" where
  "verifyChallenge challenge response accessKey =
     (response = Some (JStr (signChallenge challenge accessKey)))"

text \<open>The client bot's copy of the digest (\<open>moltly_agent_bot.js\<close>).\<close>

fun bot_signLoop :: "int \<Rightarrow> jsstring \<Rightarrow> int" where
  "bot_signLoop hash [] = hash"
| "bot_signLoop hash (char # rest) = bot_signLoop (band ((shl hash 5 - hash) + int char) ((shl hash 5 - hash) + int char)) rest"

definition bot_signChallenge :: "jsstring \<Rightarrow> jsstring \<Rightarrow> jsstring" where
  "bot_signChallenge challenge key = (let combined = challenge @ key in toString16 (bot_signLoop 0 combined))"

section \<open>String coercion and object spread\<close>

datatype error = TypeError

text \<open>
  \<open>ToString\<close> of a parsed value, as \<open>challenge + key\<close> applies it to a challenge that is
  not a string (the key is always a string). An array joins its elements with commas, a
  \<open>null\<close> element giving the empty string. An object with an own \<open>toString\<close> property
  (a parsed value, so not callable) has no primitive value and the conversion throws
  (\<open>None\<close>); any other object is \<open>[object Object]\<close>.
\<close>

fun joinComma :: "jsstring list \<Rightarrow> jsstring" where
  "joinComma [] = []"
| "joinComma [x] = x"
| "joinComma (x # y # ys) = x @ js '','' @ joinComma (y # ys)"

fun allSome :: "'a option list \<Rightarrow> 'a list option" where
  "allSome [] = Some []"
| "allSome (None # xs) = None"
| "allSome (Some x # xs) = map_option ((#) x) (allSome xs)"

fun js_ToString :: "json \<Rightarrow> jsstring option" where
  "js_ToString JNull = Some (js ''null'')"
| "js_ToString (JBool b) = Some (if b then js ''true'' else js ''false'')"
| "js_ToString (JNum n) = Some n"
| "js_ToString (JStr s) = Some s"
| "js_ToString (JArr xs) =
     map_option joinComma (allSome (map (\<lambda>x. if x = JNull then Some [] else js_ToString x) xs))"
| "js_ToString (JObj kvs) =
     (if map_of kvs (js ''toString'') = None then Some (js ''[object Object]'') else None)"

definition coerceString :: "json option \<Rightarrow> jsstring option" where
  "coerceString v = (case v of None \<Rightarrow> Some (js ''undefined'') | Some x \<Rightarrow> js_ToString x)"

text \<open>
  The own properties of an object are enumerated with the array indices first, in
  ascending numeric order, then the other keys in the order of their creation. An array
  index is the canonical decimal numeral of an integer from 0 to \<open>2^32 - 2\<close>.
\<close>

definition isDigit :: "nat \<Rightarrow> bool" where
  "isDigit c = (48 \<le> c \<and> c \<le> 57)"

definition indexValue :: "jsstring \<Rightarrow> int" where
  "indexValue k = foldl (\<lambda>n c. 10 * n + (int c - 48)) 0 k"

definition isArrayIndex :: "jsstring \<Rightarrow> bool" where
  "isArrayIndex k =
     (k \<noteq> [] \<and> list_all isDigit k \<and> (if hd k = 48 then length k = 1 else True)
      \<and> indexValue k \<le> 4294967294)"

text \<open>Creating the property \<open>k\<close> on an object that does not have it: an array index goes
  before the first property that is not a smaller array index, any other key goes last.\<close>

fun insertIndex :: "jsstring \<Rightarrow> json \<Rightarrow> (jsstring \<times> json) list \<Rightarrow> (jsstring \<times> json) list" where
  "insertIndex k v [] = [(k, v)]"
| "insertIndex k v (p # ps) =
     (if isArrayIndex (fst p) \<and> indexValue (fst p) < indexValue k then p # insertIndex k v ps
      else (k, v) # p # ps)"

text \<open>The assignment \<open>obj[k] = v\<close> of a data property: an existing property keeps its
  place and takes the value, a new one is created.\<close>

definition setProp :: "jsstring \<Rightarrow> json \<Rightarrow> (jsstring \<times> json) list \<Rightarrow> (jsstring \<times> json) list" where
  "setProp k v ps =
     (if map_of ps k \<noteq> None then AList.update k v ps
      else if isArrayIndex k then insertIndex k v ps
      else ps @ [(k, v)])"

text \<open>\<open>{ type: 'action', ...data }\<close>: the own properties of \<open>data\<close> are assigned, in the
  order of their enumeration, onto the object literal.\<close>

definition spreadAction :: "(jsstring \<times> json) list \<Rightarrow> json" where
  "spreadAction kvs =
     JObj (fold (\<lambda>(k, v). setProp k v) kvs [(js ''type'', JStr (js ''action''))])"

text \<open>\<open>String.prototype.trim\<close>: white space and line terminators are stripped at both ends.\<close>

definition isWhiteSpace :: "nat \<Rightarrow> bool" where
  "isWhiteSpace c = (c \<in> {9, 10, 11, 12, 13, 32, 160, 5760, 8232, 8233, 8239, 8287, 12288, 65279}
                     \<or> (8192 \<le> c \<and> c \<le> 8202))"

definition trim :: "jsstring \<Rightarrow> jsstring" where
  "trim s = rev (dropWhile isWhiteSpace (rev (dropWhile isWhiteSpace s)))"

section \<open>Server state\<close>

text \<open>
  \<^verbatim>\<open>
  const MAX_CONNECTIONS = Number(process.env.MAX_CONNECTIONS) || 2000;
  const HEARTBEAT_MS = Number(process.env.HEARTBEAT_MS) || 30000;
  const RATE_LIMIT_GAME = Number(process.env.RATE_LIMIT_GAME) || 25;
  const RATE_LIMIT_AGENT = Number(process.env.RATE_LIMIT_AGENT) || 65;\<close>
  The constants are fixed at startup. \<open>envNumber\<close> is \<open>Number(v) || d\<close> on an integer
  setting (\<open>None\<close>: unset or not a number).
\<close>

record config =
  MAX_CONNECTIONS :: int
  HEARTBEAT_MS :: int
  RATE_LIMIT_GAME :: int
  RATE_LIMIT_AGENT :: int

definition envNumber :: "int option \<Rightarrow> int \<Rightarrow> int" where
  "envNumber v d = (case v of None \<Rightarrow> d | Some n \<Rightarrow> if n = 0 then d else n)"

definition configure :: "int option \<Rightarrow> int option \<Rightarrow> int option \<Rightarrow> int option \<Rightarrow> config" where
  "configure maxc hb rg ra =
     \<lparr>MAX_CONNECTIONS = envNumber maxc 2000, HEARTBEAT_MS = envNumber hb 30000,
      RATE_LIMIT_GAME = envNumber rg 25, RATE_LIMIT_AGENT = envNumber ra 65\<rparr>"

definition default_config :: config where
  "default_config = configure None None None None"

text \<open>
  A WebSocket object of the \<open>ws\<close> library, as far as the server observes and drives it:
  its \<open>readyState\<close>, the code of the close frame the server sent, and the frames the
  server sent. Sockets are referred to by identity (\<open>sock\<close>); the store \<open>sockets\<close> holds
  the objects, so that the Session fields and the connection closures alias them.
\<close>

type_synonym sock = nat

datatype readyState = OPEN | CLOSING | CLOSED

datatype frame = Text json | Ping

record websocket =
  readyState :: readyState
  closeCode :: "int option"
  outbox :: "frame list"

datatype role = Game | Agent

text \<open>An entry of the \<open>agents\<close> map (a Session).\<close>

record agent =
  accessKey :: jsstring
  created :: int
  gameWs :: "sock option"
  agentWs :: "sock option"

text \<open>The variables closed over by the handlers of one admitted connection. \<open>heartbeat\<close>
  is the interval timer: the delay it repeats with while it is armed, \<open>None\<close> once
  \<open>clearInterval\<close> has cancelled it.\<close>

record connection =
  agentId :: "jsstring option"
  role :: "role option"
  lastPing :: int
  rateCount :: int
  heartbeat :: "int option"

record server =
  agents :: "jsstring \<rightharpoonup> agent"
  totalConnections :: int
  lastRateLimitReset :: int
  sockets :: "sock \<rightharpoonup> websocket"
  conns :: "sock \<rightharpoonup> connection"

definition initial :: "int \<Rightarrow> server" where
  "initial now = \<lparr>agents = Map.empty, totalConnections = 0, lastRateLimitReset = now,
                  sockets = Map.empty, conns = Map.empty\<rparr>"

definition setConn :: "sock \<Rightarrow> connection \<Rightarrow> server \<Rightarrow> server" where
  "setConn ws c st = st\<lparr>conns := (conns st)(ws \<mapsto> c)\<rparr>"

definition isOpen :: "server \<Rightarrow> sock \<Rightarrow> bool" where
  "isOpen st ws = (case sockets st ws of None \<Rightarrow> False | Some sk \<Rightarrow> readyState sk = OPEN)"

text \<open>
  \<^verbatim>\<open>
  function closeSafe(ws, code = 1000) {
    try {
      if (ws && ws.readyState === WebSocket.OPEN) ws.close(code);
    } catch (_) {}
  }\<close>
  \<open>ws.close(code)\<close> on an open socket sends the close frame and moves it to \<open>CLOSING\<close>.
\<close>

definition closeSafe :: "sock \<Rightarrow> int \<Rightarrow> server \<Rightarrow> server" where
  "closeSafe ws code st =
     (case sockets st ws of
        None \<Rightarrow> st
      | Some sk \<Rightarrow>
          if readyState sk = OPEN
          then st\<lparr>sockets := (sockets st)(ws \<mapsto> sk\<lparr>readyState := CLOSING, closeCode := Some code\<rparr>)\<rparr>
          else st)"

text \<open>\<open>ws.send(JSON.stringify(v))\<close> and \<open>ws.ping()\<close>: the frame goes out on an open socket;
  on a closing or closed one \<open>send\<close> without a callback does nothing. The outbox records
  the value handed to \<open>JSON.stringify\<close>.\<close>

definition ws_send :: "sock \<Rightarrow> json \<Rightarrow> server \<Rightarrow> server" where
  "ws_send ws v st =
     (case sockets st ws of
        None \<Rightarrow> st
      | Some sk \<Rightarrow>
          if readyState sk = OPEN
          then st\<lparr>sockets := (sockets st)(ws \<mapsto> sk\<lparr>outbox := outbox sk @ [Text v]\<rparr>)\<rparr>
          else st)"

definition ws_ping :: "sock \<Rightarrow> server \<Rightarrow> server" where
  "ws_ping ws st =
     (case sockets st ws of
        None \<Rightarrow> st
      | Some sk \<Rightarrow>
          if readyState sk = OPEN
          then st\<lparr>sockets := (sockets st)(ws \<mapsto> sk\<lparr>outbox := outbox sk @ [Ping]\<rparr>)\<rparr>
          else st)"

section \<open>Connection handlers\<close>

text \<open>
  \<^verbatim>\<open>
  wss.on('connection', (ws, req) => {
    if (totalConnections >= MAX_CONNECTIONS) {
      closeSafe(ws, 1013);
      return;
    }
    totalConnections++;
    let agentId = null;
    let role = null;
    let lastPing = Date.now();
    const rateCount = { n: 0 };
    const heartbeat = setInterval(..., HEARTBEAT_MS / 2);
    ...\<close>
  An admitted socket gets its closure in \<open>conns\<close>; the handlers below run only for
  sockets that have one.
\<close>

text \<open>
  The delay of \<open>setInterval(..., HEARTBEAT_MS / 2)\<close>. Node sets a delay below 1 or above
  2147483647 to 1 and truncates a delay that is not an integer.
\<close>

definition heartbeatDelay :: "config \<Rightarrow> int" where
  "heartbeatDelay cfg =
     (if 2 \<le> HEARTBEAT_MS cfg \<and> HEARTBEAT_MS cfg \<le> 4294967294 then HEARTBEAT_MS cfg div 2 else 1)"

definition onConnection :: "config \<Rightarrow> sock \<Rightarrow> int \<Rightarrow> server \<Rightarrow> server" where
  "onConnection cfg ws now st =
     (if totalConnections st \<ge> MAX_CONNECTIONS cfg then closeSafe ws 1013 st
      else st\<lparr>totalConnections := totalConnections st + 1,
              conns := (conns st)(ws \<mapsto>
                \<lparr>agentId = None, role = None, lastPing = now, rateCount = 0,
                  heartbeat = Some (heartbeatDelay cfg)\<rparr>)\<rparr>)"

text \<open>
  \<^verbatim>\<open>
  const heartbeat = setInterval(() => {
    if (Date.now() - lastPing > HEARTBEAT_MS) {
      clearInterval(heartbeat);
      closeSafe(ws, 1000);
      return;
    }
    try {
      if (ws.readyState === WebSocket.OPEN) ws.ping();
    } catch (_) {}
  }, HEARTBEAT_MS / 2);
  ws.on('pong', () => { lastPing = Date.now(); });\<close>
\<close>

definition onHeartbeat :: "config \<Rightarrow> sock \<Rightarrow> int \<Rightarrow> server \<Rightarrow> server" where
  "onHeartbeat cfg ws now st =
     (case conns st ws of
        None \<Rightarrow> st
      | Some c \<Rightarrow>
          if heartbeat c = None then st
          else if now - lastPing c > HEARTBEAT_MS cfg
          then closeSafe ws 1000 (setConn ws (c\<lparr>heartbeat := None\<rparr>) st)
          else if isOpen st ws then ws_ping ws st else st)"

definition onPong :: "sock \<Rightarrow> int \<Rightarrow> server \<Rightarrow> server" where
  "onPong ws now st =
     (case conns st ws of None \<Rightarrow> st | Some c \<Rightarrow> setConn ws (c\<lparr>lastPing := now\<rparr>) st)"

text \<open>
  \<^verbatim>\<open>
  ws.on('close', () => {
    totalConnections--;
    clearInterval(heartbeat);
    if (agentId) {
      const agent = agents.get(agentId);
      if (agent) {
        if (role === 'game' && agent.gameWs === ws) agent.gameWs = null;
        else if (role === 'agent' && agent.agentWs === ws) agent.agentWs = null;
      }
    }
  });
  ws.on('error', () => { clearInterval(heartbeat); });\<close>
\<close>

definition detachSocket :: "sock \<Rightarrow> connection \<Rightarrow> server \<Rightarrow> server" where
  "detachSocket ws c st =
     (case agentId c of
        None \<Rightarrow> st
      | Some aid \<Rightarrow>
          if aid = [] then st
          else (case agents st aid of
                  None \<Rightarrow> st
                | Some a \<Rightarrow>
                    if role c = Some Game \<and> gameWs a = Some ws
                    then st\<lparr>agents := (agents st)(aid \<mapsto> a\<lparr>gameWs := None\<rparr>)\<rparr>
                    else if role c = Some Agent \<and> agentWs a = Some ws
                    then st\<lparr>agents := (agents st)(aid \<mapsto> a\<lparr>agentWs := None\<rparr>)\<rparr>
                    else st))"

definition onClose :: "sock \<Rightarrow> server \<Rightarrow> server" where
  "onClose ws st =
     (case conns st ws of
        None \<Rightarrow> st
      | Some c \<Rightarrow>
          detachSocket ws c
            (setConn ws (c\<lparr>heartbeat := None\<rparr>) (st\<lparr>totalConnections := totalConnections st - 1\<rparr>)))"

definition onError :: "sock \<Rightarrow> server \<Rightarrow> server" where
  "onError ws st =
     (case conns st ws of None \<Rightarrow> st | Some c \<Rightarrow> setConn ws (c\<lparr>heartbeat := None\<rparr>) st)"

section \<open>The message handler\<close>

text \<open>The two \<open>auth_response\<close> objects the server sends.\<close>

definition authFailure :: json where
  "authFailure = JObj [(js ''type'', JStr (js ''auth_response'')),
                       (js ''status'', JStr (js ''failure'')),
                       (js ''message'', JStr (js ''Invalid credentials''))]"

definition roleName :: "role \<Rightarrow> jsstring" where
  "roleName r = (case r of Game \<Rightarrow> js ''game'' | Agent \<Rightarrow> js ''agent'')"

definition authSuccess :: "jsstring \<Rightarrow> role \<Rightarrow> json" where
  "authSuccess uuid r = JObj [(js ''type'', JStr (js ''auth_response'')),
                              (js ''status'', JStr (js ''success'')),
                              (js ''sessionId'', JStr uuid),
                              (js ''role'', JStr (roleName r))]"

text \<open>\<open>agents.get(id)\<close>: the keys of the map are strings, so only a string finds an entry.\<close>

definition agentsGet :: "server \<Rightarrow> json option \<Rightarrow> (jsstring \<times> agent) option" where
  "agentsGet st ident =
     (case ident of
        Some (JStr s) \<Rightarrow> (case agents st s of None \<Rightarrow> None | Some a \<Rightarrow> Some (s, a))
      | _ \<Rightarrow> None)"

text \<open>
  \<^verbatim>\<open>
  if (role === 'game') {
    if (agent.gameWs && agent.gameWs !== ws) closeSafe(agent.gameWs, 4000);
    agent.gameWs = ws;
  } else {
    if (agent.agentWs && agent.agentWs !== ws) closeSafe(agent.agentWs, 4000);
    agent.agentWs = ws;
  }\<close>
\<close>

definition evict :: "sock option \<Rightarrow> sock \<Rightarrow> server \<Rightarrow> server" where
  "evict old ws st =
     (case old of None \<Rightarrow> st | Some w \<Rightarrow> if w \<noteq> ws then closeSafe w 4000 st else st)"

definition attachSocket :: "jsstring \<Rightarrow> agent \<Rightarrow> role \<Rightarrow> sock \<Rightarrow> server \<Rightarrow> server" where
  "attachSocket aid a r ws st =
     (if r = Game
      then (let st' = evict (gameWs a) ws st
            in st'\<lparr>agents := (agents st')(aid \<mapsto> a\<lparr>gameWs := Some ws\<rparr>)\<rparr>)
      else (let st' = evict (agentWs a) ws st
            in st'\<lparr>agents := (agents st')(aid \<mapsto> a\<lparr>agentWs := Some ws\<rparr>)\<rparr>))"

text \<open>
  \<^verbatim>\<open>
  if (data.type === 'auth') {
    const { agentId: id, challenge, response } = data;
    const agent = agents.get(id);
    if (!agent || !verifyChallenge(challenge, response, agent.accessKey)) {
      ws.send(JSON.stringify({ type: 'auth_response', status: 'failure', message: 'Invalid credentials' }));
      return;
    }
    agentId = id;
    role = data.role === 'agent' ? 'agent' : 'game';
    ... attach ...
    ws.send(JSON.stringify({ type: 'auth_response', status: 'success', sessionId: crypto.randomUUID(), role }));
    return;
  }\<close>
  The connection \<open>c\<close> is the closure as the rate limiter left it, already stored in \<open>st\<close>.
  \<open>challenge + key\<close> inside \<open>signChallenge\<close> converts the challenge to a string when
  the entry exists; the conversion can throw.
\<close>

definition requestedRole :: "json \<Rightarrow> role" where
  "requestedRole data = (if getProp data (js ''role'') = Some (JStr (js ''agent'')) then Agent else Game)"

definition handleAuth :: "sock \<Rightarrow> json \<Rightarrow> jsstring \<Rightarrow> connection \<Rightarrow> server \<Rightarrow> error + server" where
  "handleAuth ws data uuid c st =
     (case agentsGet st (getProp data (js ''agentId'')) of
        None \<Rightarrow> Inr (ws_send ws authFailure st)
      | Some (aid, a) \<Rightarrow>
          (case coerceString (getProp data (js ''challenge'')) of
             None \<Rightarrow> Inl TypeError
           | Some challenge \<Rightarrow>
               if \<not> verifyChallenge challenge (getProp data (js ''response'')) (accessKey a)
               then Inr (ws_send ws authFailure st)
               else (let r = requestedRole data;
                         st1 = setConn ws (c\<lparr>agentId := Some aid, role := Some r\<rparr>) st;
                         st2 = attachSocket aid a r ws st1
                     in Inr (ws_send ws (authSuccess uuid r) st2))))"

text \<open>
  \<^verbatim>\<open>
  if (!agentId) return;
  const agent = agents.get(agentId);
  if (!agent) return;
  if (role === 'game' && data.type === 'state') {
    if (agent.agentWs && agent.agentWs.readyState === WebSocket.OPEN) {
      agent.agentWs.send(JSON.stringify(data));
    }
    return;
  }
  if (role === 'agent' && (data.type === 'action' || (data.steer !== undefined && data.jump !== undefined))) {
    const payload = data.type === 'action' ? data : { type: 'action', ...data };
    if (agent.gameWs && agent.gameWs.readyState === WebSocket.OPEN) {
      agent.gameWs.send(JSON.stringify(payload));
    }
    return;
  }\<close>
\<close>

definition sendIfOpen :: "sock option \<Rightarrow> json \<Rightarrow> server \<Rightarrow> server" where
  "sendIfOpen peer v st =
     (case peer of None \<Rightarrow> st | Some w \<Rightarrow> if isOpen st w then ws_send w v st else st)"

text \<open>The payload of the agent branch. When the message is not tagged \<open>action\<close> the
  branch is entered only with own properties \<open>steer\<close> and \<open>jump\<close>, so the value
  spread is an object.\<close>

definition actionPayload :: "json \<Rightarrow> json" where
  "actionPayload data =
     (if getProp data (js ''type'') = Some (JStr (js ''action'')) then data
      else (case data of JObj kvs \<Rightarrow> spreadAction kvs | _ \<Rightarrow> data))"

definition forward :: "json \<Rightarrow> connection \<Rightarrow> server \<Rightarrow> server" where
  "forward data c st =
     (case agentId c of
        None \<Rightarrow> st
      | Some aid \<Rightarrow>
          if aid = [] then st
          else (case agents st aid of
                  None \<Rightarrow> st
                | Some a \<Rightarrow>
                    if role c = Some Game \<and> getProp data (js ''type'') = Some (JStr (js ''state''))
                    then sendIfOpen (agentWs a) data st
                    else if role c = Some Agent
                            \<and> (getProp data (js ''type'') = Some (JStr (js ''action''))
                                \<or> (getProp data (js ''steer'') \<noteq> None
                                    \<and> getProp data (js ''jump'') \<noteq> None))
                    then sendIfOpen (gameWs a) (actionPayload data) st
                    else st))"

text \<open>Reading \<open>data.type\<close> of \<open>null\<close> throws; the handler does not catch it.\<close>

definition dispatch :: "sock \<Rightarrow> json \<Rightarrow> jsstring \<Rightarrow> connection \<Rightarrow> server \<Rightarrow> error + server" where
  "dispatch ws data uuid c st =
     (if data = JNull then Inl TypeError
      else if getProp data (js ''type'') = Some (JStr (js ''auth'')) then handleAuth ws data uuid c st
      else Inr (forward data c st))"

text \<open>
  \<^verbatim>\<open>
  ws.on('message', (raw) => {
    const now = Date.now();
    if (now - lastRateLimitReset > 1000) {
      lastRateLimitReset = now;
      rateCount.n = 0;
    }
    const limit = role === 'agent' ? RATE_LIMIT_AGENT : RATE_LIMIT_GAME;
    if (role !== null && rateCount.n >= limit) return;
    rateCount.n++;
    let data;
    try { data = JSON.parse(raw); } catch { return; }
    ...\<close>
  \<open>raw\<close> is given by what \<open>JSON.parse\<close> makes of it (\<open>None\<close>: it throws); \<open>uuid\<close> is
  the value \<open>crypto.randomUUID()\<close> would return.
\<close>

definition rateLimit :: "config \<Rightarrow> connection \<Rightarrow> int" where
  "rateLimit cfg c = (if role c = Some Agent then RATE_LIMIT_AGENT cfg else RATE_LIMIT_GAME cfg)"

definition rateDrop :: "config \<Rightarrow> connection \<Rightarrow> bool" where
  "rateDrop cfg c = (role c \<noteq> None \<and> rateCount c \<ge> rateLimit cfg c)"

definition windowExpired :: "int \<Rightarrow> server \<Rightarrow> bool" where
  "windowExpired now st = (now - lastRateLimitReset st > 1000)"

definition windowReset :: "int \<Rightarrow> server \<Rightarrow> server" where
  "windowReset now st = (if windowExpired now st then st\<lparr>lastRateLimitReset := now\<rparr> else st)"

definition countReset :: "int \<Rightarrow> server \<Rightarrow> connection \<Rightarrow> connection" where
  "countReset now st c = (if windowExpired now st then c\<lparr>rateCount := 0\<rparr> else c)"

definition counted :: "connection \<Rightarrow> connection" where
  "counted c = c\<lparr>rateCount := rateCount c + 1\<rparr>"

definition onMessage :: "config \<Rightarrow> sock \<Rightarrow> json option \<Rightarrow> int \<Rightarrow> jsstring \<Rightarrow> server \<Rightarrow> error + server" where
  "onMessage cfg ws raw now uuid st =
     (case conns st ws of
        None \<Rightarrow> Inr st
      | Some c0 \<Rightarrow>
          (let c1 = countReset now st c0;
               st1 = setConn ws c1 (windowReset now st)
           in if rateDrop cfg c1 then Inr st1
              else (let c2 = counted c1;
                        st2 = setConn ws c2 st1
                    in (case raw of
                          None \<Rightarrow> Inr st2
                        | Some data \<Rightarrow> dispatch ws data uuid c2 st2))))"

section \<open>Registration\<close>

text \<open>
  \<^verbatim>\<open>
  const data = JSON.parse(body);
  const agentId = (data.agentId || '').trim() || 'agent-' + crypto.randomBytes(4).toString('hex');
  const accessKey = crypto.randomBytes(16).toString('hex');
  agents.set(agentId, { accessKey, created: Date.now(), gameWs: null, agentWs: null });
  res.end(JSON.stringify({ success: true, agentId, accessKey, message: ... }));\<close>
  Any exception is answered with status 400. \<open>rndId\<close> and \<open>rndKey\<close> are the hexadecimal
  strings the two \<open>crypto.randomBytes\<close> calls would give.
\<close>

datatype registerResponse = Registered jsstring jsstring | BadRequest

text \<open>\<open>(data.agentId || '')\<close>, then the lookup of \<open>.trim\<close>: a truthy value that is not a
  string has no such method and the call throws (\<open>None\<close>).\<close>

definition agentIdOrEmpty :: "json option \<Rightarrow> jsstring option" where
  "agentIdOrEmpty v =
     (case v of
        None \<Rightarrow> Some []
      | Some JNull \<Rightarrow> Some []
      | Some (JBool b) \<Rightarrow> (if b then None else Some [])
      | Some (JNum n) \<Rightarrow> (if n = js ''0'' then Some [] else None)
      | Some (JStr s) \<Rightarrow> Some s
      | Some _ \<Rightarrow> None)"

definition onRegister :: "json option \<Rightarrow> int \<Rightarrow> jsstring \<Rightarrow> jsstring \<Rightarrow> server \<Rightarrow> server \<times> registerResponse" where
  "onRegister body now rndId rndKey st =
     (case body of
        None \<Rightarrow> (st, BadRequest)
      | Some data \<Rightarrow>
          if data = JNull then (st, BadRequest)
          else (case agentIdOrEmpty (getProp data (js ''agentId'')) of
                  None \<Rightarrow> (st, BadRequest)
                | Some s \<Rightarrow>
                    (let aid = (if trim s = [] then js ''agent-'' @ rndId else trim s);
                         key = rndKey
                     in (st\<lparr>agents := (agents st)(aid \<mapsto>
                            \<lparr>accessKey = key, created = now, gameWs = None, agentWs = None\<rparr>)\<rparr>,
                         Registered aid key))))"

section \<open>Events and runs\<close>

text \<open>
  What the environment delivers to the process. A \<open>Connection\<close> hands over a new socket,
  open; a \<open>Close\<close> is the socket's \<open>close\<close> event, emitted once, after the socket has
  become \<open>CLOSED\<close>; a \<open>Heartbeat\<close> is one firing of the connection's interval timer.
\<close>

datatype event =
    Connection sock int
  | Message sock "json option" int jsstring
  | Pong sock int
  | Heartbeat sock int
  | Close sock
  | Error sock
  | Register "json option" int jsstring jsstring

definition newSocket :: websocket where
  "newSocket = \<lparr>readyState = OPEN, closeCode = None, outbox = []\<rparr>"

definition markClosed :: "sock \<Rightarrow> server \<Rightarrow> server" where
  "markClosed ws st =
     (case sockets st ws of
        None \<Rightarrow> st
      | Some sk \<Rightarrow> st\<lparr>sockets := (sockets st)(ws \<mapsto> sk\<lparr>readyState := CLOSED\<rparr>)\<rparr>)"

definition notClosed :: "server \<Rightarrow> sock \<Rightarrow> bool" where
  "notClosed st ws = (case sockets st ws of None \<Rightarrow> False | Some sk \<Rightarrow> readyState sk \<noteq> CLOSED)"

definition timerArmed :: "server \<Rightarrow> sock \<Rightarrow> bool" where
  "timerArmed st ws = (case conns st ws of None \<Rightarrow> False | Some c \<Rightarrow> heartbeat c \<noteq> None)"

fun enabled :: "server \<Rightarrow> event \<Rightarrow> bool" where
  "enabled st (Connection ws now) = (sockets st ws = None)"
| "enabled st (Message ws raw now uuid) = notClosed st ws"
| "enabled st (Pong ws now) = notClosed st ws"
| "enabled st (Heartbeat ws now) = timerArmed st ws"
| "enabled st (Close ws) = notClosed st ws"
| "enabled st (Error ws) = notClosed st ws"
| "enabled st (Register body now rndId rndKey) = True"

fun step :: "config \<Rightarrow> event \<Rightarrow> server \<Rightarrow> error + server" where
  "step cfg (Connection ws now) st =
     Inr (onConnection cfg ws now (st\<lparr>sockets := (sockets st)(ws \<mapsto> newSocket)\<rparr>))"
| "step cfg (Message ws raw now uuid) st = onMessage cfg ws raw now uuid st"
| "step cfg (Pong ws now) st = Inr (onPong ws now st)"
| "step cfg (Heartbeat ws now) st = Inr (onHeartbeat cfg ws now st)"
| "step cfg (Close ws) st = Inr (onClose ws (markClosed ws st))"
| "step cfg (Error ws) st = Inr (onError ws st)"
| "step cfg (Register body now rndId rndKey) st = Inr (fst (onRegister body now rndId rndKey st))"

text \<open>A run of events: each must be one the environment can deliver in the state it meets,
  and the run ends (\<open>None\<close>) at an uncaught exception.\<close>

fun run :: "config \<Rightarrow> event list \<Rightarrow> server \<Rightarrow> server option" where
  "run cfg [] st = Some st"
| "run cfg (ev # evs) st =
     (if enabled st ev
      then (case step cfg ev st of Inl e \<Rightarrow> None | Inr st' \<Rightarrow> run cfg evs st')
      else None)"

text \<open>The states the server can be in: from the initial state, by enabled events.\<close>

inductive reachable :: "config \<Rightarrow> server \<Rightarrow> bool" for cfg :: config where
  reachable_initial: "reachable cfg (initial t0)"
| reachable_step: "reachable cfg st \<Longrightarrow> enabled st ev \<Longrightarrow> step cfg ev st = Inr st' \<Longrightarrow> reachable cfg st'"

section \<open>Notions used in the statements\<close>

text \<open>The admitted connections that have not closed yet.\<close>

definition admitted :: "server \<Rightarrow> sock set" where
  "admitted st = {ws. conns st ws \<noteq> None \<and> notClosed st ws}"

text \<open>The socket field of a Session for a role.\<close>

definition roleSocket :: "role \<Rightarrow> agent \<Rightarrow> sock option" where
  "roleSocket r a = (case r of Game \<Rightarrow> gameWs a | Agent \<Rightarrow> agentWs a)"

text \<open>The authentication message the bot sends when its socket opens
  (\<open>runBot\<close>, with \<open>role: 'agent'\<close>), and the same message for another role.\<close>

definition authMessage :: "jsstring \<Rightarrow> jsstring \<Rightarrow> jsstring \<Rightarrow> jsstring \<Rightarrow> json" where
  "authMessage r aid challenge key =
     JObj [(js ''type'', JStr (js ''auth'')), (js ''role'', JStr r), (js ''agentId'', JStr aid),
           (js ''challenge'', JStr challenge),
           (js ''response'', JStr (bot_signChallenge challenge key)),
           (js ''timestamp'', JNum (js ''0''))]"

text \<open>An authentication message that the server rejects in state \<open>st\<close>: the claimed
  identity has no Session, or the challenge converts to a string and the response is not
  the digest of that string under the Session's secret. A message for an existing Session
  whose challenge does not convert to a string is not one of them: on it \<open>signChallenge\<close>
  throws, and the handler sends no answer.\<close>

definition authFails :: "server \<Rightarrow> json \<Rightarrow> bool" where
  "authFails st data =
     (getProp data (js ''type'') = Some (JStr (js ''auth''))
      \<and> (case agentsGet st (getProp data (js ''agentId'')) of
            None \<Rightarrow> True
          | Some (aid, a) \<Rightarrow>
              (case coerceString (getProp data (js ''challenge'')) of
                 None \<Rightarrow> False
               | Some challenge \<Rightarrow>
                   \<not> verifyChallenge challenge (getProp data (js ''response'')) (accessKey a))))"

text \<open>The properties of an object as \<open>JSON.parse\<close> leaves them: no key twice, the
  array indices first and ascending, then the other keys.\<close>

definition propertyOrder :: "(jsstring \<times> json) list \<Rightarrow> bool" where
  "propertyOrder kvs =
     (distinct (map fst kvs)
      \<and> sorted_wrt (<) (map (\<lambda>p. indexValue (fst p)) (takeWhile (\<lambda>p. isArrayIndex (fst p)) kvs))
      \<and> list_all (\<lambda>p. \<not> isArrayIndex (fst p)) (dropWhile (\<lambda>p. isArrayIndex (fst p)) kvs))"


text \<open>The sockets after a forwarding attempt: the peer, if there is one and it is open, has
  the payload appended to what it was sent; in every other case no socket changes.\<close>

definition deliveredTo :: "sock option \<Rightarrow> json \<Rightarrow> server \<Rightarrow> server \<Rightarrow> bool" where
  "deliveredTo peer v st st' =
     (case peer of
        None \<Rightarrow> sockets st' = sockets st
      | Some p \<Rightarrow>
          (case sockets st p of
             None \<Rightarrow> sockets st' = sockets st
           | Some sk \<Rightarrow>
               if readyState sk = OPEN
               then sockets st' = (sockets st)(p \<mapsto> sk\<lparr>outbox := outbox sk @ [Text v]\<rparr>)
               else sockets st' = sockets st))"

text \<open>Messages that are all authentication messages the server rejects.\<close>

definition allRejected :: "server \<Rightarrow> (json option \<times> int \<times> jsstring) list \<Rightarrow> bool" where
  "allRejected st ms =
     list_all (\<lambda>(raw, now, uuid). case raw of None \<Rightarrow> False | Some data \<Rightarrow> authFails st data) ms"

text \<open>The messages of one socket, handled one after the other.\<close>

fun messages :: "config \<Rightarrow> sock \<Rightarrow> (json option \<times> int \<times> jsstring) list \<Rightarrow> server \<Rightarrow> error + server" where
  "messages cfg ws [] st = Inr st"
| "messages cfg ws ((raw, now, uuid) # ms) st =
     (case onMessage cfg ws raw now uuid st of Inl e \<Rightarrow> Inl e | Inr st' \<Rightarrow> messages cfg ws ms st')"

text \<open>What a socket has been sent, after the messages of a run.\<close>

definition sentTo :: "sock \<Rightarrow> error + server \<Rightarrow> frame list option" where
  "sentTo p res = (case res of Inl e \<Rightarrow> None | Inr st \<Rightarrow> map_option outbox (sockets st p))"

text \<open>The delay of a connection's interval timer, while the timer is armed.\<close>

definition timerDelay :: "server \<Rightarrow> sock \<Rightarrow> int option" where
  "timerDelay st ws = (case conns st ws of None \<Rightarrow> None | Some c \<Rightarrow> heartbeat c)"

text \<open>The interval timer of a connection firing \<open>n\<close> times after time \<open>t\<close>, each time
  one delay of the timer after the time before, with no other event in between; a
  cancelled timer does not fire.\<close>

fun heartbeats :: "config \<Rightarrow> sock \<Rightarrow> int \<Rightarrow> nat \<Rightarrow> server \<Rightarrow> server" where
  "heartbeats cfg ws t 0 st = st"
| "heartbeats cfg ws t (Suc n) st =
     (case timerDelay st ws of
        None \<Rightarrow> st
      | Some delay \<Rightarrow> heartbeats cfg ws (t + delay) n (onHeartbeat cfg ws (t + delay) st))"


text \<open>The secret of the Session of an identity, if there is one.\<close>

definition secretOf :: "server \<Rightarrow> jsstring \<Rightarrow> jsstring option" where
  "secretOf st aid = map_option accessKey (agents st aid)"

text \<open>What one event adds to \<open>totalConnections\<close>.\<close>

definition countDelta :: "config \<Rightarrow> server \<Rightarrow> event \<Rightarrow> int" where
  "countDelta cfg st ev =
     (case ev of
        Connection ws now \<Rightarrow> if totalConnections st < MAX_CONNECTIONS cfg then 1 else 0
      | Close ws \<Rightarrow> if conns st ws = None then 0 else - 1
      | _ \<Rightarrow> 0)"

text \<open>The invariant behind the connection counter: it counts the admitted connections
  that have not closed, and every closure belongs to a known socket.\<close>

definition countInv :: "server \<Rightarrow> bool" where
  "countInv st = (finite (admitted st) \<and> totalConnections st = int (card (admitted st))
                  \<and> dom (conns st) \<subseteq> dom (sockets st))"

text \<open>A relation between states: same admitted connections, same counter, same sockets known.\<close>

definition sameCount :: "server \<Rightarrow> server \<Rightarrow> bool" where
  "sameCount st st' = (dom (conns st') = dom (conns st) \<and> (\<forall>w. notClosed st' w = notClosed st w)
         \<and> totalConnections st' = totalConnections st \<and> dom (sockets st') = dom (sockets st))"

section \<open>Example states\<close>

text \<open>
  The Session \<open>x\<close> with secret \<open>s1\<close>, socket 1 authenticated as its game, socket 2 as
  its agent, and socket 3 admitted and not authenticated. It is what the run
  \<open>pairedRun\<close> leaves.
\<close>

definition pairedServer :: server where
  "pairedServer =
     \<lparr>agents = [js ''x'' \<mapsto> \<lparr>accessKey = js ''s1'', created = 0, gameWs = Some 1, agentWs = Some 2\<rparr>],
      totalConnections = 3, lastRateLimitReset = 0,
      sockets = [1 \<mapsto> \<lparr>readyState = OPEN, closeCode = None, outbox = [Text (authSuccess (js ''u1'') Game)]\<rparr>,
                 2 \<mapsto> \<lparr>readyState = OPEN, closeCode = None, outbox = [Text (authSuccess (js ''u2'') Agent)]\<rparr>,
                 3 \<mapsto> newSocket],
      conns = [1 \<mapsto> \<lparr>agentId = Some (js ''x''), role = Some Game, lastPing = 0, rateCount = 1, heartbeat = Some 15000\<rparr>,
               2 \<mapsto> \<lparr>agentId = Some (js ''x''), role = Some Agent, lastPing = 0, rateCount = 1, heartbeat = Some 15000\<rparr>,
               3 \<mapsto> \<lparr>agentId = None, role = None, lastPing = 0, rateCount = 0, heartbeat = Some 15000\<rparr>]\<rparr>"

definition pairedRun :: "event list" where
  "pairedRun =
     [Register (Some (JObj [(js ''agentId'', JStr (js ''x''))])) 0 (js ''0a0b0c0d'') (js ''s1''),
      Connection 1 0, Connection 2 0, Connection 3 0,
      Message 1 (Some (authMessage (js ''game'') (js ''x'') (js ''c1'') (js ''s1''))) 0 (js ''u1''),
      Message 2 (Some (authMessage (js ''agent'') (js ''x'') (js ''c2'') (js ''s1''))) 0 (js ''u2'')]"

text \<open>The state message and the untagged action of the bot.\<close>

definition stateMessage :: json where
  "stateMessage =
     JObj [(js ''type'', JStr (js ''state'')),
           (js ''data'', JObj [(js ''player'', JObj [(js ''x'', JNum (js ''1'')), (js ''z'', JNum (js ''2''))])])]"

definition botAction :: "(jsstring \<times> json) list" where
  "botAction = [(js ''steer'', JNum (js ''0.5'')), (js ''jump'', JBool False),
                (js ''boost'', JBool False), (js ''usePowerUp'', JBool False)]"

text \<open>An untagged action that also has two array indices among its properties.\<close>

definition indexedAction :: "(jsstring \<times> json) list" where
  "indexedAction = [(js ''7'', JNull), (js ''10'', JNull),
                    (js ''steer'', JNum (js ''0.5'')), (js ''jump'', JBool False)]"

text \<open>An authentication message for the registered identity \<open>x\<close> whose challenge is an
  object with an own \<open>toString\<close> property.\<close>

definition opaqueChallenge :: json where
  "opaqueChallenge =
     JObj [(js ''type'', JStr (js ''auth'')), (js ''role'', JStr (js ''agent'')),
           (js ''agentId'', JStr (js ''x'')),
           (js ''challenge'', JObj [(js ''toString'', JNum (js ''1''))]),
           (js ''response'', JStr (js ''0''))]"

text \<open>The paired server when its game connection has used up its window.\<close>

definition busyServer :: server where
  "busyServer = pairedServer\<lparr>conns := (conns pairedServer)(1 \<mapsto>
      \<lparr>agentId = Some (js ''x''), role = Some Game, lastPing = 0, rateCount = 25, heartbeat = Some 15000\<rparr>)\<rparr>"

text \<open>A server with room for one connection, after it admitted socket 1 and turned
  socket 2 away.\<close>

definition oneSlot :: config where
  "oneSlot = default_config\<lparr>MAX_CONNECTIONS := 1\<rparr>"

definition fullServer :: server where
  "fullServer =
     \<lparr>agents = Map.empty, totalConnections = 1, lastRateLimitReset = 0,
      sockets = [1 \<mapsto> newSocket,
                 2 \<mapsto> \<lparr>readyState = CLOSING, closeCode = Some 1013, outbox = []\<rparr>],
      conns = [1 \<mapsto> \<lparr>agentId = None, role = None, lastPing = 5, rateCount = 0, heartbeat = Some 15000\<rparr>]\<rparr>"

section \<open>Properties of the fingerprint function\<close>

lemma bot_signLoop_eq: "bot_signLoop h cs = signLoop h cs"
  by (induction cs arbitrary: h) simp_all

lemma bot_signChallenge_eq: "bot_signChallenge c k = signChallenge c k"
  by (simp add: bot_signChallenge_def signChallenge_def bot_signLoop_eq)

text \<open>
  C1: for every challenge string and secret string, the server's verification accepts the
  digest computed by the server's \<open>signChallenge\<close> and the digest computed by the bot's
  \<open>signChallenge\<close>, and the two digest functions are equal as functions.
\<close>

theorem verify_sign_roundtrip:
  "verifyChallenge challenge (Some (JStr (signChallenge challenge secret))) secret
   \<and> verifyChallenge challenge (Some (JStr (bot_signChallenge challenge secret))) secret
   \<and> bot_signChallenge = signChallenge"
  by (simp add: verifyChallenge_def bot_signChallenge_eq fun_eq_iff)

section \<open>Frame properties of the primitives\<close>

lemma closeSafe_frame [simp]:
  "agents (closeSafe ws code st) = agents st"
  "conns (closeSafe ws code st) = conns st"
  "totalConnections (closeSafe ws code st) = totalConnections st"
  "lastRateLimitReset (closeSafe ws code st) = lastRateLimitReset st"
  by (simp_all add: closeSafe_def split: option.splits)

lemma ws_send_frame [simp]:
  "agents (ws_send ws v st) = agents st"
  "conns (ws_send ws v st) = conns st"
  "totalConnections (ws_send ws v st) = totalConnections st"
  "lastRateLimitReset (ws_send ws v st) = lastRateLimitReset st"
  by (simp_all add: ws_send_def split: option.splits)

lemma ws_ping_frame [simp]:
  "agents (ws_ping ws st) = agents st"
  "conns (ws_ping ws st) = conns st"
  "totalConnections (ws_ping ws st) = totalConnections st"
  "lastRateLimitReset (ws_ping ws st) = lastRateLimitReset st"
  by (simp_all add: ws_ping_def split: option.splits)

lemma setConn_frame [simp]:
  "agents (setConn ws c st) = agents st"
  "sockets (setConn ws c st) = sockets st"
  "conns (setConn ws c st) = (conns st)(ws \<mapsto> c)"
  "totalConnections (setConn ws c st) = totalConnections st"
  "lastRateLimitReset (setConn ws c st) = lastRateLimitReset st"
  by (simp_all add: setConn_def)

lemma markClosed_frame [simp]:
  "agents (markClosed ws st) = agents st"
  "conns (markClosed ws st) = conns st"
  "totalConnections (markClosed ws st) = totalConnections st"
  "lastRateLimitReset (markClosed ws st) = lastRateLimitReset st"
  by (simp_all add: markClosed_def split: option.splits)

lemma sendIfOpen_frame [simp]:
  "agents (sendIfOpen p v st) = agents st"
  "conns (sendIfOpen p v st) = conns st"
  "totalConnections (sendIfOpen p v st) = totalConnections st"
  "lastRateLimitReset (sendIfOpen p v st) = lastRateLimitReset st"
  by (simp_all add: sendIfOpen_def split: option.splits)

lemma evict_frame [simp]:
  "agents (evict old ws st) = agents st"
  "conns (evict old ws st) = conns st"
  "totalConnections (evict old ws st) = totalConnections st"
  "lastRateLimitReset (evict old ws st) = lastRateLimitReset st"
  by (simp_all add: evict_def split: option.splits)

lemma forward_frame [simp]:
  "agents (forward data c st) = agents st"
  "conns (forward data c st) = conns st"
  "totalConnections (forward data c st) = totalConnections st"
  "lastRateLimitReset (forward data c st) = lastRateLimitReset st"
  by (simp_all add: forward_def split: option.splits)

lemma detachSocket_frame [simp]:
  "sockets (detachSocket ws c st) = sockets st"
  "conns (detachSocket ws c st) = conns st"
  "totalConnections (detachSocket ws c st) = totalConnections st"
  "lastRateLimitReset (detachSocket ws c st) = lastRateLimitReset st"
  by (simp_all add: detachSocket_def split: option.splits)

lemma attachSocket_frame [simp]:
  "conns (attachSocket aid a r ws st) = conns st"
  "totalConnections (attachSocket aid a r ws st) = totalConnections st"
  "lastRateLimitReset (attachSocket aid a r ws st) = lastRateLimitReset st"
  by (simp_all add: attachSocket_def Let_def)

text \<open>closedness of sockets\<close>

lemma notClosed_closeSafe [simp]: "notClosed (closeSafe w code st) ws = notClosed st ws"
  by (simp add: notClosed_def closeSafe_def split: option.splits)

lemma notClosed_ws_send [simp]: "notClosed (ws_send w v st) ws = notClosed st ws"
  by (simp add: notClosed_def ws_send_def split: option.splits)

lemma notClosed_ws_ping [simp]: "notClosed (ws_ping w st) ws = notClosed st ws"
  by (simp add: notClosed_def ws_ping_def split: option.splits)

lemma notClosed_setConn [simp]: "notClosed (setConn w c st) ws = notClosed st ws"
  by (simp add: notClosed_def)

lemma notClosed_sendIfOpen [simp]: "notClosed (sendIfOpen p v st) ws = notClosed st ws"
  by (simp add: sendIfOpen_def split: option.splits)

lemma notClosed_evict [simp]: "notClosed (evict old w st) ws = notClosed st ws"
  by (simp add: evict_def split: option.splits)

lemma notClosed_forward [simp]: "notClosed (forward data c st) ws = notClosed st ws"
  by (simp add: forward_def split: option.splits)

lemma notClosed_detachSocket [simp]: "notClosed (detachSocket w c st) ws = notClosed st ws"
  by (simp add: notClosed_def)

lemma notClosed_attachSocket [simp]: "notClosed (attachSocket aid a r w st) ws = notClosed st ws"
  by (simp add: attachSocket_def Let_def notClosed_def[of "_\<lparr>agents := _\<rparr>"] )
    (simp add: notClosed_def[symmetric])

section \<open>The connection counter\<close>

lemma dom_sockets_closeSafe [simp]: "dom (sockets (closeSafe w code st)) = dom (sockets st)"
  by (auto simp: closeSafe_def split: option.splits if_splits)

lemma dom_sockets_ws_send [simp]: "dom (sockets (ws_send w v st)) = dom (sockets st)"
  by (auto simp: ws_send_def split: option.splits if_splits)

lemma dom_sockets_ws_ping [simp]: "dom (sockets (ws_ping w st)) = dom (sockets st)"
  by (auto simp: ws_ping_def split: option.splits if_splits)

lemma dom_sockets_markClosed [simp]: "dom (sockets (markClosed w st)) = dom (sockets st)"
  by (auto simp: markClosed_def split: option.splits if_splits)

lemma dom_sockets_sendIfOpen [simp]: "dom (sockets (sendIfOpen p v st)) = dom (sockets st)"
  by (simp add: sendIfOpen_def split: option.splits)

lemma dom_sockets_evict [simp]: "dom (sockets (evict old w st)) = dom (sockets st)"
  by (simp add: evict_def split: option.splits)

lemma dom_sockets_forward [simp]: "dom (sockets (forward data c st)) = dom (sockets st)"
  by (simp add: forward_def split: option.splits)

lemma dom_sockets_attachSocket [simp]: "dom (sockets (attachSocket aid a r w st)) = dom (sockets st)"
  by (simp add: attachSocket_def Let_def)

lemma sameCount_admitted: "sameCount st st' \<Longrightarrow> admitted st' = admitted st"
  unfolding sameCount_def admitted_def by (metis domIff)

lemma sameCount_countInv: "sameCount st st' \<Longrightarrow> countInv st \<Longrightarrow> countInv st'"
  using sameCount_admitted[of st st'] by (simp add: countInv_def sameCount_def)

lemma dom_conns_setConn: "conns st ws \<noteq> None \<Longrightarrow> dom (conns (setConn ws c st)) = dom (conns st)"
  by (auto simp: setConn_def)

lemma notClosed_updates [simp]:
  "notClosed (st\<lparr>totalConnections := n\<rparr>) = notClosed st"
  "notClosed (st\<lparr>agents := a\<rparr>) = notClosed st"
  "notClosed (st\<lparr>conns := cs\<rparr>) = notClosed st"
  "notClosed (st\<lparr>lastRateLimitReset := t\<rparr>) = notClosed st"
  by (simp_all add: notClosed_def fun_eq_iff)

lemma countInv_initial: "countInv (initial t0)"
  by (simp add: countInv_def admitted_def initial_def)


lemma sameCount_trans: "sameCount a b \<Longrightarrow> sameCount b c \<Longrightarrow> sameCount a c"
  by (simp add: sameCount_def)

lemma sameCount_setConn: "conns st ws \<noteq> None \<Longrightarrow> sameCount st (setConn ws c st)"
  using dom_conns_setConn[of st ws c] by (simp add: sameCount_def del: setConn_frame(3))

lemma sameCount_ws_send: "sameCount st (ws_send ws v st)"
  by (simp add: sameCount_def)

lemma sameCount_attachSocket: "sameCount st (attachSocket aid a r ws st)"
  by (simp add: sameCount_def)

lemma handleAuth_sameCount:
  assumes "handleAuth ws data uuid c st = Inr st'" "conns st ws \<noteq> None"
  shows "sameCount st st'"
proof -
  from assms(1) consider
      (fail) "st' = ws_send ws authFailure st"
    | (ok) aid a r where
        "st' = ws_send ws (authSuccess uuid r)
                 (attachSocket aid a r ws (setConn ws (c\<lparr>agentId := Some aid, role := Some r\<rparr>) st))"
    by (auto simp: handleAuth_def Let_def split: option.splits if_splits prod.splits)
  then show ?thesis
  proof cases
    case fail
    then show ?thesis by (simp add: sameCount_ws_send)
  next
    case ok
    have "sameCount st (setConn ws (c\<lparr>agentId := Some aid, role := Some r\<rparr>) st)"
      using assms(2) by (rule sameCount_setConn)
    then have "sameCount st (attachSocket aid a r ws (setConn ws (c\<lparr>agentId := Some aid, role := Some r\<rparr>) st))"
      using sameCount_attachSocket by (rule sameCount_trans)
    then show ?thesis unfolding ok
      using sameCount_ws_send by (rule sameCount_trans)
  qed
qed

lemma dispatch_sameCount:
  assumes "dispatch ws data uuid c st = Inr st'" "conns st ws \<noteq> None"
  shows "sameCount st st'"
proof (cases "getProp data (js ''type'') = Some (JStr (js ''auth''))")
  case True
  with assms have "handleAuth ws data uuid c st = Inr st'"
    by (simp add: dispatch_def split: if_splits)
  then show ?thesis using assms(2) by (rule handleAuth_sameCount)
next
  case False
  with assms have "st' = forward data c st"
    by (simp add: dispatch_def split: if_splits)
  then show ?thesis by (simp add: sameCount_def)
qed

lemma sameCount_windowReset: "sameCount st (windowReset now st)"
  by (simp add: sameCount_def notClosed_def windowReset_def)

lemma conns_windowReset [simp]: "conns (windowReset now st) = conns st"
  by (simp add: windowReset_def)

lemma setConn_setConn [simp]: "setConn ws c (setConn ws c' st) = setConn ws c st"
  by (simp add: setConn_def)

lemma onMessage_Some:
  "conns st ws = Some c0 \<Longrightarrow>
   onMessage cfg ws raw now uuid st =
     (if rateDrop cfg (countReset now st c0)
      then Inr (setConn ws (countReset now st c0) (windowReset now st))
      else (case raw of
              None \<Rightarrow> Inr (setConn ws (counted (countReset now st c0)) (windowReset now st))
            | Some data \<Rightarrow>
                dispatch ws data uuid (counted (countReset now st c0))
                  (setConn ws (counted (countReset now st c0)) (windowReset now st))))"
  by (simp add: onMessage_def Let_def)

lemma onMessage_sameCount:
  assumes "onMessage cfg ws raw now uuid st = Inr st'"
  shows "sameCount st st'"
proof (cases "conns st ws")
  case None
  with assms show ?thesis by (simp add: onMessage_def sameCount_def)
next
  case (Some c0)
  have s2: "sameCount st (setConn ws c (windowReset now st))" for c
  proof -
    have "conns (windowReset now st) ws \<noteq> None" using Some by simp
    then have "sameCount (windowReset now st) (setConn ws c (windowReset now st))"
      by (rule sameCount_setConn)
    with sameCount_windowReset show ?thesis by (rule sameCount_trans)
  qed
  have k2: "conns (setConn ws c (windowReset now st)) ws \<noteq> None" for c by simp
  let ?c1 = "countReset now st c0"
  show ?thesis
  proof (cases "rateDrop cfg ?c1")
    case True
    with assms have "st' = setConn ws ?c1 (windowReset now st)"
      by (simp add: onMessage_Some[OF Some])
    then show ?thesis using s2 by simp
  next
    case nd: False
    show ?thesis
    proof (cases raw)
      case None
      with nd assms have "st' = setConn ws (counted ?c1) (windowReset now st)"
        by (simp add: onMessage_Some[OF Some])
      then show ?thesis using s2 by simp
    next
      case (Some data)
      with nd assms have
        "dispatch ws data uuid (counted ?c1) (setConn ws (counted ?c1) (windowReset now st)) = Inr st'"
        by (simp add: onMessage_Some[OF \<open>conns st ws = Some c0\<close>])
      then have "sameCount (setConn ws (counted ?c1) (windowReset now st)) st'"
        using k2 by (rule dispatch_sameCount)
      with s2 show ?thesis by (rule sameCount_trans)
    qed
  qed
qed

lemma onHeartbeat_sameCount: "sameCount st (onHeartbeat cfg ws now st)"
  by (auto simp: onHeartbeat_def sameCount_def split: option.splits)

lemma onPong_sameCount: "sameCount st (onPong ws now st)"
  by (auto simp: onPong_def sameCount_def split: option.splits)

lemma onError_sameCount: "sameCount st (onError ws st)"
  by (auto simp: onError_def sameCount_def split: option.splits)

lemma onRegister_sameCount: "sameCount st (fst (onRegister body now rid rkey st))"
  by (auto simp: onRegister_def sameCount_def notClosed_def Let_def split: option.splits)

lemma notClosed_fresh: "sockets st ws = None \<Longrightarrow> \<not> notClosed st ws"
  by (simp add: notClosed_def)

lemma conns_fresh: "countInv st \<Longrightarrow> sockets st ws = None \<Longrightarrow> conns st ws = None"
  by (auto simp: countInv_def dom_def)

lemma notClosed_newSocket:
  "notClosed (st\<lparr>sockets := (sockets st)(ws \<mapsto> newSocket)\<rparr>) w = (w = ws \<or> notClosed st w)"
  by (simp add: notClosed_def newSocket_def)

lemma admitted_reject:
  assumes "countInv st" "sockets st ws = None"
  shows "admitted (closeSafe ws 1013 (st\<lparr>sockets := (sockets st)(ws \<mapsto> newSocket)\<rparr>)) = admitted st"
  using conns_fresh[OF assms] by (auto simp: admitted_def notClosed_newSocket)

lemma admitted_admit:
  assumes "sockets st ws = None"
  shows "admitted (st\<lparr>sockets := (sockets st)(ws \<mapsto> newSocket), totalConnections := n,
                      conns := (conns st)(ws \<mapsto> c)\<rparr>) = insert ws (admitted st)"
  by (auto simp: admitted_def notClosed_def newSocket_def)

lemma not_admitted_fresh: "sockets st ws = None \<Longrightarrow> ws \<notin> admitted st"
  by (simp add: admitted_def notClosed_def)

lemma countInv_onConnection:
  assumes "countInv st" "sockets st ws = None"
  shows "countInv (onConnection cfg ws now (st\<lparr>sockets := (sockets st)(ws \<mapsto> newSocket)\<rparr>))"
proof (cases "totalConnections st \<ge> MAX_CONNECTIONS cfg")
  case True
  then show ?thesis
    using assms admitted_reject[OF assms]
    by (auto simp: onConnection_def countInv_def)
next
  case False
  then show ?thesis
    using assms admitted_admit[OF assms(2)] not_admitted_fresh[OF assms(2)]
    by (auto simp: onConnection_def countInv_def)
qed

lemma notClosed_markClosed: "notClosed (markClosed ws st) w = (w \<noteq> ws \<and> notClosed st w)"
  by (auto simp: notClosed_def markClosed_def split: option.splits)

lemma admitted_onClose:
  "admitted (onClose ws (markClosed ws st)) = admitted st - {ws}"
  by (auto simp: admitted_def onClose_def notClosed_markClosed split: option.splits)

lemma totalConnections_onClose:
  "totalConnections (onClose ws (markClosed ws st)) =
     (if conns st ws = None then totalConnections st else totalConnections st - 1)"
  by (simp add: onClose_def split: option.splits)

lemma countInv_onClose:
  assumes "countInv st" "notClosed st ws"
  shows "countInv (onClose ws (markClosed ws st))"
proof -
  have d: "dom (conns (onClose ws (markClosed ws st))) \<subseteq> dom (sockets (onClose ws (markClosed ws st)))"
    using assms(1) by (auto simp: countInv_def onClose_def split: option.splits)
  show ?thesis
  proof (cases "conns st ws")
    case None
    then have "ws \<notin> admitted st" by (simp add: admitted_def)
    then show ?thesis using assms(1) d None
      by (simp add: countInv_def admitted_onClose totalConnections_onClose)
  next
    case (Some c)
    then have m: "ws \<in> admitted st" using assms(2) by (simp add: admitted_def)
    then have "card (admitted st) > 0" using assms(1) by (auto simp: countInv_def card_gt_0_iff)
    then show ?thesis using assms(1) d Some m
      by (simp add: countInv_def admitted_onClose totalConnections_onClose)
  qed
qed

lemma countInv_step:
  assumes "countInv st" "enabled st ev" "step cfg ev st = Inr st'"
  shows "countInv st'"
proof (cases ev)
  case (Connection ws now)
  with assms show ?thesis using countInv_onConnection by auto
next
  case (Message ws raw now uuid)
  with assms have "sameCount st st'" by (auto intro: onMessage_sameCount)
  then show ?thesis using assms(1) by (rule sameCount_countInv)
next
  case (Pong ws now)
  with assms have "st' = onPong ws now st" by simp
  then show ?thesis using onPong_sameCount assms(1) sameCount_countInv by blast
next
  case (Heartbeat ws now)
  with assms have "st' = onHeartbeat cfg ws now st" by simp
  then show ?thesis using onHeartbeat_sameCount assms(1) sameCount_countInv by blast
next
  case (Close ws)
  with assms show ?thesis using countInv_onClose by auto
next
  case (Error ws)
  with assms have "st' = onError ws st" by simp
  then show ?thesis using onError_sameCount assms(1) sameCount_countInv by blast
next
  case (Register body now rid rkey)
  with assms have "st' = fst (onRegister body now rid rkey st)" by simp
  then show ?thesis using onRegister_sameCount assms(1) sameCount_countInv by blast
qed

lemma reachable_countInv: "reachable cfg st \<Longrightarrow> countInv st"
  by (induction rule: reachable.induct) (auto intro: countInv_initial countInv_step)

lemma bound_step:
  assumes "countInv st" "enabled st ev" "step cfg ev st = Inr st'" 
     "totalConnections st \<le> MAX_CONNECTIONS cfg"
  shows "totalConnections st' \<le> MAX_CONNECTIONS cfg"
proof (cases ev)
  case (Connection ws now)
  with assms show ?thesis by (auto simp: onConnection_def)
next
  case (Message ws raw now uuid)
  with assms have "sameCount st st'" by (auto intro: onMessage_sameCount)
  then show ?thesis using assms(4) by (simp add: sameCount_def)
next
  case (Pong ws now)
  with assms show ?thesis using onPong_sameCount[of st ws now] by (auto simp: sameCount_def)
next
  case (Heartbeat ws now)
  with assms show ?thesis using onHeartbeat_sameCount[of st cfg ws now] by (auto simp: sameCount_def)
next
  case (Close ws)
  with assms show ?thesis by (auto simp: totalConnections_onClose)
next
  case (Error ws)
  with assms show ?thesis using onError_sameCount[of st ws] by (auto simp: sameCount_def)
next
  case (Register body now rid rkey)
  with assms show ?thesis using onRegister_sameCount[of st body now rid rkey] by (auto simp: sameCount_def)
qed

lemma reachable_bound:
  "reachable cfg st \<Longrightarrow> 0 \<le> MAX_CONNECTIONS cfg \<Longrightarrow> totalConnections st \<le> MAX_CONNECTIONS cfg"
proof (induction rule: reachable.induct)
  case (reachable_initial t0)
  then show ?case by (simp add: initial_def)
next
  case (reachable_step st ev st')
  then show ?case using bound_step reachable_countInv by blast
qed

lemma reachable_run: "reachable cfg st \<Longrightarrow> run cfg evs st = Some st' \<Longrightarrow> reachable cfg st'"
proof (induction evs arbitrary: st)
  case Nil
  then show ?case by simp
next
  case (Cons ev evs)
  then show ?case
    by (auto split: if_splits sum.splits intro: reachable_step)
qed

lemma delta_step:
  assumes "enabled st ev" "step cfg ev st = Inr st'"
  shows "totalConnections st' = totalConnections st + countDelta cfg st ev"
proof (cases ev)
  case (Connection ws now)
  with assms show ?thesis by (auto simp: onConnection_def countDelta_def)
next
  case (Message ws raw now uuid)
  with assms have "sameCount st st'" by (auto intro: onMessage_sameCount)
  then show ?thesis using Message by (simp add: sameCount_def countDelta_def)
next
  case (Pong ws now)
  with assms show ?thesis using onPong_sameCount[of st ws now] by (auto simp: sameCount_def countDelta_def)
next
  case (Heartbeat ws now)
  with assms show ?thesis using onHeartbeat_sameCount[of st cfg ws now] by (auto simp: sameCount_def countDelta_def)
next
  case (Close ws)
  with assms show ?thesis by (auto simp: totalConnections_onClose countDelta_def)
next
  case (Error ws)
  with assms show ?thesis using onError_sameCount[of st ws] by (auto simp: sameCount_def countDelta_def)
next
  case (Register body now rid rkey)
  with assms show ?thesis using onRegister_sameCount[of st body now rid rkey] by (auto simp: sameCount_def countDelta_def)
qed

lemma admit_step:
  assumes "totalConnections st < MAX_CONNECTIONS cfg"
  shows "step cfg (Connection ws now) st =
           Inr (st\<lparr>sockets := (sockets st)(ws \<mapsto> newSocket),
                   totalConnections := totalConnections st + 1,
                   conns := (conns st)(ws \<mapsto>
                     \<lparr>agentId = None, role = None, lastPing = now, rateCount = 0,
                  heartbeat = Some (heartbeatDelay cfg)\<rparr>)\<rparr>)"
  using assms by (simp add: onConnection_def)

lemma reject_step:
  assumes "totalConnections st \<ge> MAX_CONNECTIONS cfg"
  shows "step cfg (Connection ws now) st =
           Inr (st\<lparr>sockets := (sockets st)(ws \<mapsto>
                  \<lparr>readyState = CLOSING, closeCode = Some 1013, outbox = []\<rparr>)\<rparr>)"
  using assms by (simp add: onConnection_def closeSafe_def newSocket_def)

lemma closed_after_close:
  "\<not> enabled (onClose ws (markClosed ws st)) (Close ws)
   \<and> \<not> enabled (onClose ws (markClosed ws st)) (Heartbeat ws now)
   \<and> \<not> enabled (onClose ws (markClosed ws st)) (Message ws raw now uuid)"
  by (auto simp: onClose_def notClosed_markClosed timerArmed_def split: option.splits)

text \<open>
  C4: in every reachable state, with a non-negative \<open>MAX_CONNECTIONS\<close>, the counter
  lies between 0 and \<open>MAX_CONNECTIONS\<close> and equals the number of admitted connections
  that have not closed. A new socket arriving below the ceiling is admitted: the counter is
  incremented and the connection's closure (identity and role unset, timer armed, count 0)
  is created. A new socket arriving at or above the ceiling is closed with code 1013: the
  only change of the state is that socket, now closing; it has no closure and the counter
  is unchanged. Every event changes the counter by \<open>countDelta\<close>: plus one for an
  admitted connection, minus one for the close of an admitted connection, nothing
  otherwise; and after its close event a socket cannot close again.
\<close>

theorem admission_control:
  assumes "reachable cfg st" and "0 \<le> MAX_CONNECTIONS cfg"
  shows "0 \<le> totalConnections st \<and> totalConnections st \<le> MAX_CONNECTIONS cfg
    \<and> totalConnections st = int (card (admitted st))
    \<and> (sockets st ws = None \<and> totalConnections st < MAX_CONNECTIONS cfg \<longrightarrow>
          step cfg (Connection ws now) st =
            Inr (st\<lparr>sockets := (sockets st)(ws \<mapsto> newSocket),
                    totalConnections := totalConnections st + 1,
                    conns := (conns st)(ws \<mapsto>
                      \<lparr>agentId = None, role = None, lastPing = now, rateCount = 0,
                  heartbeat = Some (heartbeatDelay cfg)\<rparr>)\<rparr>))
    \<and> (sockets st ws = None \<and> totalConnections st \<ge> MAX_CONNECTIONS cfg \<longrightarrow>
          conns st ws = None
          \<and> step cfg (Connection ws now) st =
              Inr (st\<lparr>sockets := (sockets st)(ws \<mapsto>
                     \<lparr>readyState = CLOSING, closeCode = Some 1013, outbox = []\<rparr>)\<rparr>))
    \<and> (enabled st ev \<and> step cfg ev st = Inr st' \<longrightarrow>
          totalConnections st' = totalConnections st + countDelta cfg st ev)
    \<and> (enabled st (Close ws) \<longrightarrow>
          (\<exists>st'. step cfg (Close ws) st = Inr st' \<and> \<not> enabled st' (Close ws)))"
proof -
  have inv: "countInv st" using assms(1) by (rule reachable_countInv)
  have a: "0 \<le> totalConnections st" "totalConnections st = int (card (admitted st))"
    using inv by (simp_all add: countInv_def)
  have b: "totalConnections st \<le> MAX_CONNECTIONS cfg"
    using assms by (rule reachable_bound)
  have c: "sockets st ws = None \<longrightarrow> conns st ws = None"
    using inv conns_fresh by blast
  have d: "enabled st ev \<and> step cfg ev st = Inr st' \<longrightarrow>
          totalConnections st' = totalConnections st + countDelta cfg st ev"
    using delta_step by blast
  have e: "\<exists>st'. step cfg (Close ws) st = Inr st' \<and> \<not> enabled st' (Close ws)"
    using closed_after_close[of ws st] by simp
  show ?thesis
    using a b c d e admit_step[of st cfg ws now] reject_step[of cfg st ws now] by blast
qed

lemma fullServer_run: "run oneSlot [Connection 1 5, Connection 2 6] (initial 0) = Some fullServer"
  by (simp add: oneSlot_def default_config_def configure_def envNumber_def initial_def
      onConnection_def heartbeatDelay_def closeSafe_def newSocket_def fullServer_def)

lemma reachable_fullServer: "reachable oneSlot fullServer"
  using reachable_run[OF reachable_initial fullServer_run] .

theorem admission_control_witness:
  "reachable oneSlot fullServer \<and> 0 \<le> MAX_CONNECTIONS oneSlot
   \<and> sockets fullServer 3 = None \<and> totalConnections fullServer \<ge> MAX_CONNECTIONS oneSlot
   \<and> enabled fullServer (Close 1)
   \<and> step oneSlot (Close 1) fullServer = Inr (onClose 1 (markClosed 1 fullServer))
   \<and> totalConnections fullServer = 1
   \<and> card (admitted fullServer) = 1
   \<and> step oneSlot (Connection 3 7) fullServer =
        Inr (fullServer\<lparr>sockets := (sockets fullServer)(3 \<mapsto>
               \<lparr>readyState = CLOSING, closeCode = Some 1013, outbox = []\<rparr>)\<rparr>)
   \<and> totalConnections (onClose 1 (markClosed 1 fullServer)) = 0"
proof -
  have h1: "reachable oneSlot fullServer" by (rule reachable_fullServer)
  have h2: "0 \<le> MAX_CONNECTIONS oneSlot"
    by (simp add: oneSlot_def)
  have h3: "sockets fullServer 3 = None \<and> totalConnections fullServer \<ge> MAX_CONNECTIONS oneSlot"
    by (simp add: fullServer_def oneSlot_def)
  have h4: "enabled fullServer (Close 1)
            \<and> step oneSlot (Close 1) fullServer = Inr (onClose 1 (markClosed 1 fullServer))"
    by (simp add: fullServer_def notClosed_def newSocket_def)
  have t: "totalConnections fullServer = 1" by (simp add: fullServer_def)
  have d: "countDelta oneSlot fullServer (Close 1) = - 1"
    by (simp add: countDelta_def fullServer_def)
  show ?thesis
    using admission_control[OF h1 h2, where ws = 3 and now = 7 and ev = "Close 1"
        and st' = "onClose 1 (markClosed 1 fullServer)"]
      h1 h2 h3 h4 t d by simp
qed

section \<open>Authentication and eviction\<close>

lemma js_eq_iff [simp]: "js a = js b \<longleftrightarrow> a = b"
  unfolding js_def by (simp add: inj_map_eq_map[OF inj_of_char])

lemma js_Nil_iff [simp]: "js a = [] \<longleftrightarrow> a = []"
  by (simp add: js_def)

lemma windowReset_frame [simp]:
  "agents (windowReset now st) = agents st"
  "sockets (windowReset now st) = sockets st"
  "totalConnections (windowReset now st) = totalConnections st"
  by (simp_all add: windowReset_def)

lemma getProp_JNull_type: "getProp data k = Some v \<Longrightarrow> data \<noteq> JNull"
  by (cases data) simp_all

lemma onMessage_auth_success:
  assumes "conns st ws = Some c"
    and "\<not> rateDrop cfg (countReset now st c)"
    and "getProp data (js ''type'') = Some (JStr (js ''auth''))"
    and "getProp data (js ''agentId'') = Some (JStr aid)"
    and "agents st aid = Some a"
    and "coerceString (getProp data (js ''challenge'')) = Some challenge"
    and "verifyChallenge challenge (getProp data (js ''response'')) (accessKey a)"
  shows "onMessage cfg ws (Some data) now uuid st =
           Inr (ws_send ws (authSuccess uuid (requestedRole data))
                 (attachSocket aid a (requestedRole data) ws
                   (setConn ws ((counted (countReset now st c))\<lparr>agentId := Some aid,
                                   role := Some (requestedRole data)\<rparr>) (windowReset now st))))"
  using assms getProp_JNull_type[OF assms(3)]
  by (simp add: onMessage_Some dispatch_def handleAuth_def agentsGet_def Let_def)

lemma agentsGet_setConn [simp]: "agentsGet (setConn ws c st) i = agentsGet st i"
  by (simp add: agentsGet_def split: option.splits json.splits)

lemma agentsGet_windowReset [simp]: "agentsGet (windowReset now st) i = agentsGet st i"
  by (simp add: agentsGet_def split: option.splits json.splits)

lemma onMessage_auth_failure:
  assumes "conns st ws = Some c"
    and "\<not> rateDrop cfg (countReset now st c)"
    and "getProp data (js ''type'') = Some (JStr (js ''auth''))"
    and "agentsGet st (getProp data (js ''agentId'')) = None
         \<or> (\<exists>aid a challenge. agentsGet st (getProp data (js ''agentId'')) = Some (aid, a)
              \<and> coerceString (getProp data (js ''challenge'')) = Some challenge
              \<and> \<not> verifyChallenge challenge (getProp data (js ''response'')) (accessKey a))"
  shows "onMessage cfg ws (Some data) now uuid st =
           Inr (ws_send ws authFailure
                 (setConn ws (counted (countReset now st c)) (windowReset now st)))"
  using assms getProp_JNull_type[OF assms(3)]
  by (auto simp: onMessage_Some dispatch_def handleAuth_def Let_def)

lemma sockets_ws_send_other: "w \<noteq> ws \<Longrightarrow> sockets (ws_send ws v st) w = sockets st w"
  by (simp add: ws_send_def split: option.splits)

lemma sockets_attachSocket_evicted:
  assumes "roleSocket r a = Some old" "old \<noteq> ws" "sockets st old = Some sk" "readyState sk = OPEN"
  shows "sockets (attachSocket aid a r ws st) old = Some (sk\<lparr>readyState := CLOSING, closeCode := Some 4000\<rparr>)"
  using assms by (cases r) (simp_all add: attachSocket_def roleSocket_def evict_def closeSafe_def Let_def)

lemma agents_attachSocket:
  "\<exists>a'. agents (attachSocket aid a r ws st) aid = Some a' \<and> roleSocket r a' = Some ws
        \<and> accessKey a' = accessKey a"
  by (cases r) (simp_all add: attachSocket_def roleSocket_def Let_def)

lemma onClose_keeps_other:
  assumes "agents st aid = Some a" "roleSocket r a = Some b" "b \<noteq> w"
  shows "\<exists>a'. agents (onClose w (markClosed w st)) aid = Some a' \<and> roleSocket r a' = Some b
             \<and> accessKey a' = accessKey a"
  using assms
  by (cases r) (auto simp: onClose_def detachSocket_def roleSocket_def split: option.splits)

text \<open>
  C3: a Session's socket field for a role holds an open socket \<open>old\<close>, and a different
  socket \<open>b\<close> sends an authentication message for that identity and role which passes
  the rate limiter and the fingerprint check. Then the handler returns; \<open>old\<close> has been
  sent a close frame with code 4000 and is closing; the field holds \<open>b\<close>; and after the
  close handler of \<open>old\<close> has run, the field still holds \<open>b\<close>. The role is the one the
  message requests, \<open>agent\<close> or (anything else) \<open>game\<close>.
\<close>

theorem eviction:
  assumes "conns st b = Some cb"
    and "\<not> rateDrop cfg (countReset now st cb)"
    and "getProp data (js ''type'') = Some (JStr (js ''auth''))"
    and "getProp data (js ''agentId'') = Some (JStr aid)"
    and "agents st aid = Some a"
    and "coerceString (getProp data (js ''challenge'')) = Some challenge"
    and "verifyChallenge challenge (getProp data (js ''response'')) (accessKey a)"
    and "roleSocket (requestedRole data) a = Some old"
    and "old \<noteq> b"
    and "sockets st old = Some sk"
    and "readyState sk = OPEN"
  shows "\<exists>st'. onMessage cfg b (Some data) now uuid st = Inr st'
          \<and> sockets st' old = Some (sk\<lparr>readyState := CLOSING, closeCode := Some 4000\<rparr>)
          \<and> (\<exists>a'. agents st' aid = Some a' \<and> roleSocket (requestedRole data) a' = Some b)
          \<and> (\<exists>a'. agents (onClose old (markClosed old st')) aid = Some a'
                    \<and> roleSocket (requestedRole data) a' = Some b)"
proof -
  let ?r = "requestedRole data"
  let ?S = "setConn b ((counted (countReset now st cb))\<lparr>agentId := Some aid, role := Some ?r\<rparr>)
              (windowReset now st)"
  let ?st' = "ws_send b (authSuccess uuid ?r) (attachSocket aid a ?r b ?S)"
  have res: "onMessage cfg b (Some data) now uuid st = Inr ?st'"
    using assms(1-7) by (rule onMessage_auth_success)
  have "sockets ?S old = Some sk" using assms(10) by simp
  then have "sockets (attachSocket aid a ?r b ?S) old
               = Some (sk\<lparr>readyState := CLOSING, closeCode := Some 4000\<rparr>)"
    using assms(8,9,11) by (simp add: sockets_attachSocket_evicted)
  then have sk': "sockets ?st' old = Some (sk\<lparr>readyState := CLOSING, closeCode := Some 4000\<rparr>)"
    using assms(9) by (simp add: sockets_ws_send_other)
  obtain a' where a': "agents ?st' aid = Some a'" "roleSocket ?r a' = Some b"
    using agents_attachSocket[of aid a ?r b ?S] by auto
  from a' assms(9) have "\<exists>a''. agents (onClose old (markClosed old ?st')) aid = Some a''
        \<and> roleSocket ?r a'' = Some b"
    using onClose_keeps_other[of ?st' aid a' ?r b old] by blast
  with res sk' a' show ?thesis by blast
qed

lemma getProp_authMessage:
  "getProp (authMessage r aid ch key) (js ''type'') = Some (JStr (js ''auth''))"
  "getProp (authMessage r aid ch key) (js ''role'') = Some (JStr r)"
  "getProp (authMessage r aid ch key) (js ''agentId'') = Some (JStr aid)"
  "getProp (authMessage r aid ch key) (js ''challenge'') = Some (JStr ch)"
  "getProp (authMessage r aid ch key) (js ''response'') = Some (JStr (signChallenge ch key))"
  by (simp_all add: authMessage_def bot_signChallenge_eq)

lemma requestedRole_authMessage:
  "requestedRole (authMessage (js ''agent'') aid ch key) = Agent"
  "requestedRole (authMessage (js ''game'') aid ch key) = Game"
  by (simp_all add: requestedRole_def getProp_authMessage)

theorem eviction_witness:
  "conns pairedServer 3 = Some \<lparr>agentId = None, role = None, lastPing = 0, rateCount = 0, heartbeat = Some 15000\<rparr>
   \<and> \<not> rateDrop default_config (countReset 0 pairedServer
          \<lparr>agentId = None, role = None, lastPing = 0, rateCount = 0, heartbeat = Some 15000\<rparr>)
   \<and> agents pairedServer (js ''x'')
        = Some \<lparr>accessKey = js ''s1'', created = 0, gameWs = Some 1, agentWs = Some 2\<rparr>
   \<and> verifyChallenge (js ''c3'') (Some (JStr (signChallenge (js ''c3'') (js ''s1'')))) (js ''s1'')
   \<and> roleSocket Agent \<lparr>accessKey = js ''s1'', created = 0, gameWs = Some 1, agentWs = Some 2\<rparr> = Some 2
   \<and> sockets pairedServer 2
        = Some \<lparr>readyState = OPEN, closeCode = None, outbox = [Text (authSuccess (js ''u2'') Agent)]\<rparr>
   \<and> (\<exists>st'. onMessage default_config 3
                (Some (authMessage (js ''agent'') (js ''x'') (js ''c3'') (js ''s1''))) 0 (js ''u3'')
                pairedServer = Inr st'
          \<and> sockets st' 2 = Some \<lparr>readyState = CLOSING, closeCode = Some 4000,
                                   outbox = [Text (authSuccess (js ''u2'') Agent)]\<rparr>
          \<and> (\<exists>a'. agents st' (js ''x'') = Some a' \<and> roleSocket Agent a' = Some 3)
          \<and> (\<exists>a'. agents (onClose 2 (markClosed 2 st')) (js ''x'') = Some a'
                    \<and> roleSocket Agent a' = Some 3))"
proof -
  let ?c = "\<lparr>agentId = None, role = None, lastPing = 0, rateCount = 0, heartbeat = Some 15000\<rparr>"
  let ?a = "\<lparr>accessKey = js ''s1'', created = 0, gameWs = Some 1, agentWs = Some 2\<rparr>"
  let ?sk = "\<lparr>readyState = OPEN, closeCode = None, outbox = [Text (authSuccess (js ''u2'') Agent)]\<rparr>"
  let ?m = "authMessage (js ''agent'') (js ''x'') (js ''c3'') (js ''s1'')"
  have h1: "conns pairedServer 3 = Some ?c" by (simp add: pairedServer_def)
  have h2: "\<not> rateDrop default_config (countReset 0 pairedServer ?c)"
    by (simp add: rateDrop_def countReset_def)
  have h3: "getProp ?m (js ''type'') = Some (JStr (js ''auth''))" by (simp add: getProp_authMessage)
  have h4: "getProp ?m (js ''agentId'') = Some (JStr (js ''x''))" by (simp add: getProp_authMessage)
  have h5: "agents pairedServer (js ''x'') = Some ?a" by (simp add: pairedServer_def)
  have h6: "coerceString (getProp ?m (js ''challenge'')) = Some (js ''c3'')"
    by (simp add: getProp_authMessage coerceString_def)
  have h7: "verifyChallenge (js ''c3'') (getProp ?m (js ''response'')) (accessKey ?a)"
    by (simp add: getProp_authMessage verifyChallenge_def)
  have h8: "roleSocket (requestedRole ?m) ?a = Some 2"
    by (simp add: requestedRole_authMessage roleSocket_def)
  have h9: "(2::nat) \<noteq> 3" by simp
  have h10: "sockets pairedServer 2 = Some ?sk" by (simp add: pairedServer_def)
  have h11: "readyState ?sk = OPEN" by simp
  show ?thesis
    using eviction[OF h1 h2 h3 h4 h5 h6 h7 h8 h9 h10 h11, of "js ''u3''"] h1 h2 h5 h7 h8 h10
    by (simp add: requestedRole_authMessage getProp_authMessage)
qed

section \<open>Rejected authentication\<close>

lemma trim_x: "trim (js ''x'') = js ''x''"
  by (simp add: trim_def js_def isWhiteSpace_def)

lemma reachable_pairedServer: "reachable default_config pairedServer"
proof -
  have "run default_config pairedRun (initial 0) = Some pairedServer"
    by (simp add: pairedRun_def initial_def onRegister_def agentIdOrEmpty_def trim_x
      onConnection_def heartbeatDelay_def default_config_def configure_def envNumber_def newSocket_def
      onMessage_def Let_def rateDrop_def rateLimit_def countReset_def windowReset_def windowExpired_def
      counted_def setConn_def dispatch_def handleAuth_def agentsGet_def
      coerceString_def verifyChallenge_def bot_signChallenge_eq requestedRole_def attachSocket_def
      evict_def ws_send_def closeSafe_def notClosed_def authMessage_def pairedServer_def fun_eq_iff)
  with reachable_initial show ?thesis by (rule reachable_run)
qed

lemma authFails_cases:
  "authFails st data \<Longrightarrow>
     getProp data (js ''type'') = Some (JStr (js ''auth''))
     \<and> (agentsGet st (getProp data (js ''agentId'')) = None
         \<or> (\<exists>aid a challenge. agentsGet st (getProp data (js ''agentId'')) = Some (aid, a)
              \<and> coerceString (getProp data (js ''challenge'')) = Some challenge
              \<and> \<not> verifyChallenge challenge (getProp data (js ''response'')) (accessKey a)))"
  by (auto simp: authFails_def split: option.splits)

lemma agentsGet_agents:
  assumes "agents st' = agents st"
  shows "agentsGet st' i = agentsGet st i"
  unfolding agentsGet_def assms by (rule refl)

lemma authFails_agents:
  assumes "agents st' = agents st"
  shows "authFails st' data = authFails st data"
  unfolding authFails_def agentsGet_agents[OF assms] by (rule refl)

lemma role_countReset [simp]: "role (countReset now st c) = role c"
  and agentId_countReset [simp]: "agentId (countReset now st c) = agentId c"
  and lastPing_countReset [simp]: "lastPing (countReset now st c) = lastPing c"
  and heartbeat_countReset [simp]: "heartbeat (countReset now st c) = heartbeat c"
  by (simp_all add: countReset_def)

lemma role_counted [simp]: "role (counted c) = role c"
  and agentId_counted [simp]: "agentId (counted c) = agentId c"
  and lastPing_counted [simp]: "lastPing (counted c) = lastPing c"
  and heartbeat_counted [simp]: "heartbeat (counted c) = heartbeat c"
  and rateCount_counted [simp]: "rateCount (counted c) = rateCount c + 1"
  by (simp_all add: counted_def)

lemma not_rateDrop_unauthenticated: "role c = None \<Longrightarrow> \<not> rateDrop cfg c"
  by (simp add: rateDrop_def)

lemma lastRateLimitReset_windowReset:
  "lastRateLimitReset (windowReset now st) = (if windowExpired now st then now else lastRateLimitReset st)"
  by (simp add: windowReset_def)

lemma sockets_ws_send_open:
  "sockets st ws = Some sk \<Longrightarrow> readyState sk = OPEN \<Longrightarrow>
   sockets (ws_send ws v st) = (sockets st)(ws \<mapsto> sk\<lparr>outbox := outbox sk @ [Text v]\<rparr>)"
  by (simp add: ws_send_def)

text \<open>The state after a rejected authentication message, field by field.\<close>

lemma failed_auth_state:
  assumes "conns st ws = Some c" "\<not> rateDrop cfg (countReset now st c)" "authFails st data"
    and "sockets st ws = Some sk" "readyState sk = OPEN"
  shows "\<exists>st'. onMessage cfg ws (Some data) now uuid st = Inr st'
          \<and> agents st' = agents st
          \<and> totalConnections st' = totalConnections st
          \<and> lastRateLimitReset st' = (if windowExpired now st then now else lastRateLimitReset st)
          \<and> sockets st' = (sockets st)(ws \<mapsto> sk\<lparr>outbox := outbox sk @ [Text authFailure]\<rparr>)
          \<and> conns st' = (conns st)(ws \<mapsto> counted (countReset now st c))"
proof -
  let ?S = "setConn ws (counted (countReset now st c)) (windowReset now st)"
  let ?st' = "ws_send ws authFailure ?S"
  have ty: "getProp data (js ''type'') = Some (JStr (js ''auth''))"
    and fl: "agentsGet st (getProp data (js ''agentId'')) = None
         \<or> (\<exists>aid a challenge. agentsGet st (getProp data (js ''agentId'')) = Some (aid, a)
              \<and> coerceString (getProp data (js ''challenge'')) = Some challenge
              \<and> \<not> verifyChallenge challenge (getProp data (js ''response'')) (accessKey a))"
    using authFails_cases[OF assms(3)] by blast+
  have 1: "onMessage cfg ws (Some data) now uuid st = Inr ?st'"
    using assms(1,2) ty fl by (rule onMessage_auth_failure)
  have "sockets ?S ws = Some sk" using assms(4) by simp
  then have "sockets ?st' = (sockets ?S)(ws \<mapsto> sk\<lparr>outbox := outbox sk @ [Text authFailure]\<rparr>)"
    using assms(5) by (rule sockets_ws_send_open)
  then have 2: "sockets ?st' = (sockets st)(ws \<mapsto> sk\<lparr>outbox := outbox sk @ [Text authFailure]\<rparr>)"
    by simp
  have 3: "agents ?st' = agents st" by simp
  have 4: "totalConnections ?st' = totalConnections st" by simp
  have 5: "lastRateLimitReset ?st' = (if windowExpired now st then now else lastRateLimitReset st)"
    by (simp add: lastRateLimitReset_windowReset)
  have 6: "conns ?st' = (conns st)(ws \<mapsto> counted (countReset now st c))" by simp
  from 1 2 3 4 5 6 show ?thesis by blast
qed

text \<open>When the Session exists and the challenge cannot be converted to a string, the
  handler throws inside \<open>signChallenge\<close>, after the message was counted and before anything
  is sent.\<close>

lemma onMessage_auth_throws:
  assumes "conns st ws = Some c"
    and "\<not> rateDrop cfg (countReset now st c)"
    and "getProp data (js ''type'') = Some (JStr (js ''auth''))"
    and "agentsGet st (getProp data (js ''agentId'')) \<noteq> None"
    and "coerceString (getProp data (js ''challenge'')) = None"
  shows "onMessage cfg ws (Some data) now uuid st = Inl TypeError"
  using assms getProp_JNull_type[OF assms(3)]
  by (auto simp: onMessage_Some dispatch_def handleAuth_def Let_def)

text \<open>
  C7 (as amended): an unauthenticated connection with an open socket sends an
  authentication message. If the server rejects it (\<open>authFails\<close>: no Session for the
  claimed identity, or the challenge converts to a string and the response is not the
  digest), the handler returns; the only frame sent is the failure \<open>auth_response\<close>, to
  the sender, whose socket stays open; the Registry and the connection counter are
  unchanged; the connection keeps its unset role and identity; its message counter
  advances by one (from zero if the window was reset); and the same message is rejected
  again in the new state. If instead the Session exists and the challenge cannot be
  converted to a string, the handler does not return: it throws a \<open>TypeError\<close>, and no
  failure response is sent.
\<close>

theorem auth_failure:
  assumes "conns st ws = Some c" and "role c = None"
    and "sockets st ws = Some sk" and "readyState sk = OPEN"
  shows "(authFails st data \<longrightarrow>
          (\<exists>st'. onMessage cfg ws (Some data) now uuid st = Inr st'
            \<and> sockets st' = (sockets st)(ws \<mapsto> sk\<lparr>outbox := outbox sk @ [Text authFailure]\<rparr>)
            \<and> agents st' = agents st
            \<and> totalConnections st' = totalConnections st
            \<and> conns st' = (conns st)(ws \<mapsto>
                  c\<lparr>rateCount := (if windowExpired now st then 0 else rateCount c) + 1\<rparr>)
            \<and> authFails st' data))
    \<and> (getProp data (js ''type'') = Some (JStr (js ''auth''))
        \<and> agentsGet st (getProp data (js ''agentId'')) \<noteq> None
        \<and> coerceString (getProp data (js ''challenge'')) = None \<longrightarrow>
          \<not> authFails st data
          \<and> onMessage cfg ws (Some data) now uuid st = Inl TypeError)"
proof -
  have nd: "\<not> rateDrop cfg (countReset now st c)"
    using assms(2) by (simp add: not_rateDrop_unauthenticated)
  have cnt: "counted (countReset now st c) = c\<lparr>rateCount := (if windowExpired now st then 0 else rateCount c) + 1\<rparr>"
    unfolding counted_def countReset_def by simp
  have rej: "\<exists>st'. onMessage cfg ws (Some data) now uuid st = Inr st'
            \<and> sockets st' = (sockets st)(ws \<mapsto> sk\<lparr>outbox := outbox sk @ [Text authFailure]\<rparr>)
            \<and> agents st' = agents st
            \<and> totalConnections st' = totalConnections st
            \<and> conns st' = (conns st)(ws \<mapsto>
                  c\<lparr>rateCount := (if windowExpired now st then 0 else rateCount c) + 1\<rparr>)
            \<and> authFails st' data"
    if h: "authFails st data"
  proof -
    from failed_auth_state[OF assms(1) nd h assms(3,4), of uuid]
    obtain st' where st': "onMessage cfg ws (Some data) now uuid st = Inr st'"
        "agents st' = agents st" "totalConnections st' = totalConnections st"
        "sockets st' = (sockets st)(ws \<mapsto> sk\<lparr>outbox := outbox sk @ [Text authFailure]\<rparr>)"
        "conns st' = (conns st)(ws \<mapsto> counted (countReset now st c))"
      by blast
    have fa: "authFails st' data" using authFails_agents[OF st'(2)] h by simp
    from st' fa show ?thesis unfolding cnt[symmetric] by blast
  qed
  have thr: "\<not> authFails st data \<and> onMessage cfg ws (Some data) now uuid st = Inl TypeError"
    if h: "getProp data (js ''type'') = Some (JStr (js ''auth''))"
      "agentsGet st (getProp data (js ''agentId'')) \<noteq> None"
      "coerceString (getProp data (js ''challenge'')) = None"
  proof -
    have "\<not> authFails st data"
      using h(2,3) by (auto simp: authFails_def split: option.splits)
    moreover have "onMessage cfg ws (Some data) now uuid st = Inl TypeError"
      using assms(1) nd h by (rule onMessage_auth_throws)
    ultimately show ?thesis by simp
  qed
  from rej thr show ?thesis by blast
qed

lemma digest_s1_s2: "signChallenge (js ''c3'') (js ''s2'') \<noteq> signChallenge (js ''c3'') (js ''s1'')"
  by code_simp

lemma authFails_unknown: "authFails pairedServer (authMessage r (js ''nobody'') ch key)"
  by (simp add: authFails_def getProp_authMessage agentsGet_def pairedServer_def)

lemma authFails_wrong_secret:
  "authFails pairedServer (authMessage r (js ''x'') (js ''c3'') (js ''s2''))"
  using digest_s1_s2
  by (simp add: authFails_def getProp_authMessage agentsGet_def pairedServer_def coerceString_def
      verifyChallenge_def)

theorem auth_failure_witness:
  "conns pairedServer 3 = Some \<lparr>agentId = None, role = None, lastPing = 0, rateCount = 0, heartbeat = Some 15000\<rparr>
   \<and> authFails pairedServer (authMessage (js ''agent'') (js ''x'') (js ''c3'') (js ''s2''))
   \<and> sockets pairedServer 3 = Some newSocket \<and> readyState newSocket = OPEN
   \<and> (\<exists>st'. onMessage default_config 3
               (Some (authMessage (js ''agent'') (js ''x'') (js ''c3'') (js ''s2''))) 0 (js ''u3'')
               pairedServer = Inr st'
          \<and> sockets st' 3 = Some \<lparr>readyState = OPEN, closeCode = None, outbox = [Text authFailure]\<rparr>
          \<and> agents st' = agents pairedServer
          \<and> conns st' 3 = Some \<lparr>agentId = None, role = None, lastPing = 0, rateCount = 1, heartbeat = Some 15000\<rparr>)
   \<and> getProp opaqueChallenge (js ''type'') = Some (JStr (js ''auth''))
   \<and> agentsGet pairedServer (getProp opaqueChallenge (js ''agentId'')) \<noteq> None
   \<and> coerceString (getProp opaqueChallenge (js ''challenge'')) = None
   \<and> \<not> authFails pairedServer opaqueChallenge
   \<and> onMessage default_config 3 (Some opaqueChallenge) 0 (js ''u3'') pairedServer = Inl TypeError"
proof -
  let ?c = "\<lparr>agentId = None, role = None, lastPing = 0, rateCount = 0, heartbeat = Some 15000\<rparr>"
  let ?m = "authMessage (js ''agent'') (js ''x'') (js ''c3'') (js ''s2'')"
  have h1: "conns pairedServer 3 = Some ?c" by (simp add: pairedServer_def)
  have h2: "role ?c = None" by simp
  have h3: "authFails pairedServer ?m" by (rule authFails_wrong_secret)
  have h4: "sockets pairedServer 3 = Some newSocket" by (simp add: pairedServer_def)
  have h5: "readyState newSocket = OPEN" by (simp add: newSocket_def)
  have w: "\<not> windowExpired 0 pairedServer" by (simp add: windowExpired_def pairedServer_def)
  from auth_failure[OF h1 h2 h4 h5, of ?m default_config 0 "js ''u3''"] h3
  obtain st' where "onMessage default_config 3 (Some ?m) 0 (js ''u3'') pairedServer = Inr st'"
    "sockets st' = (sockets pairedServer)(3 \<mapsto> newSocket\<lparr>outbox := outbox newSocket @ [Text authFailure]\<rparr>)"
    "agents st' = agents pairedServer"
    "conns st' = (conns pairedServer)(3 \<mapsto> ?c\<lparr>rateCount := (if windowExpired 0 pairedServer then 0 else rateCount ?c) + 1\<rparr>)"
    by blast
  then have e: "\<exists>st'. onMessage default_config 3 (Some ?m) 0 (js ''u3'') pairedServer = Inr st'
          \<and> sockets st' 3 = Some \<lparr>readyState = OPEN, closeCode = None, outbox = [Text authFailure]\<rparr>
          \<and> agents st' = agents pairedServer
          \<and> conns st' 3 = Some \<lparr>agentId = None, role = None, lastPing = 0, rateCount = 1, heartbeat = Some 15000\<rparr>"
    using w by (simp add: newSocket_def)
  have o1: "getProp opaqueChallenge (js ''type'') = Some (JStr (js ''auth''))"
    by (simp add: opaqueChallenge_def)
  have o2: "agentsGet pairedServer (getProp opaqueChallenge (js ''agentId'')) \<noteq> None"
    by (simp add: opaqueChallenge_def agentsGet_def pairedServer_def)
  have o3: "coerceString (getProp opaqueChallenge (js ''challenge'')) = None"
    by (simp add: opaqueChallenge_def coerceString_def)
  from auth_failure[OF h1 h2 h4 h5, of opaqueChallenge default_config 0 "js ''u3''"] o1 o2 o3
  have t: "\<not> authFails pairedServer opaqueChallenge
      \<and> onMessage default_config 3 (Some opaqueChallenge) 0 (js ''u3'') pairedServer = Inl TypeError"
    by blast
  show ?thesis using h1 h3 h4 h5 e o1 o2 o3 t by (intro conjI) simp_all
qed

text \<open>The claim as first stated, that a failed attempt changes no connection state, fails:
  the connection's message counter goes from 0 to 1.\<close>

theorem auth_failure_counterexample:
  "conns pairedServer 3 = Some \<lparr>agentId = None, role = None, lastPing = 0, rateCount = 0, heartbeat = Some 15000\<rparr>
   \<and> agents pairedServer (js ''nobody'') = None
   \<and> onMessage default_config 3
         (Some (authMessage (js ''agent'') (js ''nobody'') (js ''c3'') (js ''s1''))) 0 (js ''u3'') pairedServer
       = Inr (pairedServer\<lparr>
                sockets := (sockets pairedServer)(3 \<mapsto>
                  \<lparr>readyState = OPEN, closeCode = None, outbox = [Text authFailure]\<rparr>),
                conns := (conns pairedServer)(3 \<mapsto>
                  \<lparr>agentId = None, role = None, lastPing = 0, rateCount = 1, heartbeat = Some 15000\<rparr>)\<rparr>)"
proof -
  let ?c = "\<lparr>agentId = None, role = None, lastPing = 0, rateCount = 0, heartbeat = Some 15000\<rparr>"
  let ?m = "authMessage (js ''agent'') (js ''nobody'') (js ''c3'') (js ''s1'')"
  have h1: "conns pairedServer 3 = Some ?c" by (simp add: pairedServer_def)
  have nd: "\<not> rateDrop default_config (countReset 0 pairedServer ?c)"
    by (simp add: rateDrop_def)
  have ty: "getProp ?m (js ''type'') = Some (JStr (js ''auth''))" by (simp add: getProp_authMessage)
  have nb: "agents pairedServer (js ''nobody'') = None" by (simp add: pairedServer_def)
  then have fl: "agentsGet pairedServer (getProp ?m (js ''agentId'')) = None
         \<or> (\<exists>aid a challenge. agentsGet pairedServer (getProp ?m (js ''agentId'')) = Some (aid, a)
              \<and> coerceString (getProp ?m (js ''challenge'')) = Some challenge
              \<and> \<not> verifyChallenge challenge (getProp ?m (js ''response'')) (accessKey a))"
    by (simp add: getProp_authMessage agentsGet_def)
  have "onMessage default_config 3 (Some ?m) 0 (js ''u3'') pairedServer =
          Inr (ws_send 3 authFailure (setConn 3 (counted (countReset 0 pairedServer ?c)) (windowReset 0 pairedServer)))"
    using h1 nd ty fl by (rule onMessage_auth_failure)
  also have "ws_send 3 authFailure (setConn 3 (counted (countReset 0 pairedServer ?c)) (windowReset 0 pairedServer))
      = pairedServer\<lparr>
                sockets := (sockets pairedServer)(3 \<mapsto>
                  \<lparr>readyState = OPEN, closeCode = None, outbox = [Text authFailure]\<rparr>),
                conns := (conns pairedServer)(3 \<mapsto>
                  \<lparr>agentId = None, role = None, lastPing = 0, rateCount = 1, heartbeat = Some 15000\<rparr>)\<rparr>"
    by (simp add: ws_send_def setConn_def counted_def countReset_def windowReset_def windowExpired_def
        pairedServer_def newSocket_def)
  finally show ?thesis using h1 nb by simp
qed

section \<open>The rate limiter before authentication\<close>

lemma onMessage_unauthenticated:
  assumes "conns st ws = Some c" "role c = None"
  shows "onMessage cfg ws raw now uuid st =
         (case raw of
            None \<Rightarrow> Inr (setConn ws (counted (countReset now st c)) (windowReset now st))
          | Some data \<Rightarrow> dispatch ws data uuid (counted (countReset now st c))
                           (setConn ws (counted (countReset now st c)) (windowReset now st)))"
  using assms by (simp add: onMessage_Some not_rateDrop_unauthenticated)

lemma rejected_run:
  assumes "allRejected st ms" "conns st ws = Some c" "role c = None"
    and "sockets st ws = Some sk" "readyState sk = OPEN"
  shows "\<exists>st' c'. messages cfg ws ms st = Inr st'
           \<and> sockets st' = (sockets st)(ws \<mapsto> sk\<lparr>outbox := outbox sk @ replicate (length ms) (Text authFailure)\<rparr>)
           \<and> agents st' = agents st
           \<and> conns st' = (conns st)(ws \<mapsto> c') \<and> role c' = None \<and> agentId c' = agentId c"
  using assms
proof (induction ms arbitrary: st c sk)
  case Nil
  then show ?case by (auto intro!: exI[of _ c])
next
  case (Cons m ms)
  obtain raw now uuid where m: "m = (raw, now, uuid)" by (cases m) auto
  with Cons.prems(1) obtain data where raw: "raw = Some data" and fa: "authFails st data"
    and rest: "allRejected st ms"
    by (auto simp: allRejected_def split: option.splits)
  have nd: "\<not> rateDrop cfg (countReset now st c)"
    using Cons.prems(3) by (simp add: not_rateDrop_unauthenticated)
  from failed_auth_state[OF Cons.prems(2) nd fa Cons.prems(4,5), of uuid]
  obtain st1 where st1: "onMessage cfg ws (Some data) now uuid st = Inr st1"
      "agents st1 = agents st"
      "sockets st1 = (sockets st)(ws \<mapsto> sk\<lparr>outbox := outbox sk @ [Text authFailure]\<rparr>)"
      "conns st1 = (conns st)(ws \<mapsto> counted (countReset now st c))"
    by blast
  let ?c1 = "counted (countReset now st c)"
  let ?sk1 = "sk\<lparr>outbox := outbox sk @ [Text authFailure]\<rparr>"
  have "authFails st1 = authFails st"
    using authFails_agents[OF st1(2)] by (simp add: fun_eq_iff)
  then have r1: "allRejected st1 ms"
    using rest unfolding allRejected_def by (simp cong: option.case_cong)
  have p2: "conns st1 ws = Some ?c1" using st1(4) by simp
  have p3: "role ?c1 = None" using Cons.prems(3) by simp
  have p4: "sockets st1 ws = Some ?sk1" using st1(3) by simp
  have p5: "readyState ?sk1 = OPEN" using Cons.prems(5) by simp
  from Cons.IH[OF r1 p2 p3 p4 p5]
  obtain st' c' where st': "messages cfg ws ms st1 = Inr st'"
      "sockets st' = (sockets st1)(ws \<mapsto> ?sk1\<lparr>outbox := outbox ?sk1 @ replicate (length ms) (Text authFailure)\<rparr>)"
      "agents st' = agents st1" "conns st' = (conns st1)(ws \<mapsto> c')" "role c' = None"
      "agentId c' = agentId ?c1"
    by blast
  have "messages cfg ws (m # ms) st = Inr st'"
    using st1(1) st'(1) by (simp add: m raw)
  moreover have "sockets st' = (sockets st)(ws \<mapsto> sk\<lparr>outbox := outbox sk @ replicate (length (m # ms)) (Text authFailure)\<rparr>)"
    using st'(2) st1(3) by (simp add: replicate_app_Cons_same)
  moreover have "agents st' = agents st" using st'(3) st1(2) by simp
  moreover have "conns st' = (conns st)(ws \<mapsto> c')" using st'(4) st1(4) by simp
  moreover have "agentId c' = agentId c" using st'(6) by simp
  ultimately show ?case using st'(5) by blast
qed

text \<open>
  C10: while a connection's role is unset, the rate limiter's drop condition is false
  whatever its message count, so the handler always goes on to count the message and to
  parse and dispatch it. In particular, any number of rejected authentication messages
  sent on an open unauthenticated connection are all answered: the sender's outbox grows
  by one failure response per message, and the connection stays unauthenticated.
\<close>

theorem unauthenticated_never_dropped:
  assumes "conns st ws = Some c" and "role c = None"
  shows "\<not> rateDrop cfg (countReset now st c)
    \<and> onMessage cfg ws raw now uuid st =
         (case raw of
            None \<Rightarrow> Inr (setConn ws (counted (countReset now st c)) (windowReset now st))
          | Some data \<Rightarrow> dispatch ws data uuid (counted (countReset now st c))
                           (setConn ws (counted (countReset now st c)) (windowReset now st)))
    \<and> (allRejected st ms \<and> sockets st ws = Some sk \<and> readyState sk = OPEN \<longrightarrow>
          (\<exists>st' c'. messages cfg ws ms st = Inr st'
             \<and> sockets st' = (sockets st)(ws \<mapsto>
                   sk\<lparr>outbox := outbox sk @ replicate (length ms) (Text authFailure)\<rparr>)
             \<and> conns st' ws = Some c' \<and> role c' = None))"
proof -
  have a: "\<not> rateDrop cfg (countReset now st c)"
    using assms(2) by (simp add: not_rateDrop_unauthenticated)
  have b: "onMessage cfg ws raw now uuid st =
         (case raw of
            None \<Rightarrow> Inr (setConn ws (counted (countReset now st c)) (windowReset now st))
          | Some data \<Rightarrow> dispatch ws data uuid (counted (countReset now st c))
                           (setConn ws (counted (countReset now st c)) (windowReset now st)))"
    using assms by (rule onMessage_unauthenticated)
  have c: "\<exists>st' c'. messages cfg ws ms st = Inr st'
             \<and> sockets st' = (sockets st)(ws \<mapsto>
                   sk\<lparr>outbox := outbox sk @ replicate (length ms) (Text authFailure)\<rparr>)
             \<and> conns st' ws = Some c' \<and> role c' = None"
    if "allRejected st ms" "sockets st ws = Some sk" "readyState sk = OPEN"
  proof -
    from rejected_run[OF that(1) assms that(2,3), of cfg]
    obtain st' c' where "messages cfg ws ms st = Inr st'"
      "sockets st' = (sockets st)(ws \<mapsto> sk\<lparr>outbox := outbox sk @ replicate (length ms) (Text authFailure)\<rparr>)"
      "conns st' = (conns st)(ws \<mapsto> c')" "role c' = None"
      by blast
    then show ?thesis by (intro exI[of _ st'] exI[of _ c']) simp
  qed
  from a b c show ?thesis by blast
qed

theorem unauthenticated_never_dropped_witness:
  "conns pairedServer 3 = Some \<lparr>agentId = None, role = None, lastPing = 0, rateCount = 0, heartbeat = Some 15000\<rparr>
   \<and> allRejected pairedServer
        (replicate 100 (Some (authMessage (js ''agent'') (js ''nobody'') (js ''c'') (js ''k'')), 0, js ''u''))
   \<and> sockets pairedServer 3 = Some newSocket \<and> readyState newSocket = OPEN
   \<and> (\<exists>st' c'. messages default_config 3
           (replicate 100 (Some (authMessage (js ''agent'') (js ''nobody'') (js ''c'') (js ''k'')), 0, js ''u''))
           pairedServer = Inr st'
         \<and> sockets st' 3 = Some \<lparr>readyState = OPEN, closeCode = None,
                                  outbox = replicate 100 (Text authFailure)\<rparr>
         \<and> conns st' 3 = Some c' \<and> role c' = None)"
proof -
  let ?c = "\<lparr>agentId = None, role = None, lastPing = 0, rateCount = 0, heartbeat = Some 15000\<rparr>"
  let ?ms = "replicate 100 (Some (authMessage (js ''agent'') (js ''nobody'') (js ''c'') (js ''k'')), 0::int, js ''u'')"
  have h1: "conns pairedServer 3 = Some ?c" by (simp add: pairedServer_def)
  have h2: "role ?c = None" by simp
  have h3: "allRejected pairedServer ?ms"
    by (simp add: allRejected_def list_all_iff authFails_unknown)
  have h4: "sockets pairedServer 3 = Some newSocket" by (simp add: pairedServer_def)
  have h5: "readyState newSocket = OPEN" by (simp add: newSocket_def)
  from unauthenticated_never_dropped[OF h1 h2, where cfg = default_config and ms = ?ms and sk = newSocket]
    h3 h4 h5
  obtain st' c' where "messages default_config 3 ?ms pairedServer = Inr st'"
    "sockets st' = (sockets pairedServer)(3 \<mapsto>
        newSocket\<lparr>outbox := outbox newSocket @ replicate (length ?ms) (Text authFailure)\<rparr>)"
    "conns st' 3 = Some c'" "role c' = None"
    by blast
  then show ?thesis using h1 h3 h4 h5 by (auto simp: newSocket_def)
qed

section \<open>The rate limiter\<close>

lemma handleAuth_rateCount:
  assumes "handleAuth ws data uuid c st = Inr st'" "conns st ws = Some c"
  shows "\<exists>c'. conns st' ws = Some c' \<and> rateCount c' = rateCount c"
proof -
  from assms(1) consider
      (fail) "st' = ws_send ws authFailure st"
    | (ok) aid a r where
        "st' = ws_send ws (authSuccess uuid r)
                 (attachSocket aid a r ws (setConn ws (c\<lparr>agentId := Some aid, role := Some r\<rparr>) st))"
    by (auto simp: handleAuth_def Let_def split: option.splits if_splits prod.splits)
  then show ?thesis
  proof cases
    case fail
    then show ?thesis using assms(2) by simp
  next
    case ok
    then show ?thesis by simp
  qed
qed

lemma dispatch_rateCount:
  assumes "dispatch ws data uuid c st = Inr st'" "conns st ws = Some c"
  shows "\<exists>c'. conns st' ws = Some c' \<and> rateCount c' = rateCount c"
proof (cases "getProp data (js ''type'') = Some (JStr (js ''auth''))")
  case True
  with assms have "handleAuth ws data uuid c st = Inr st'"
    by (simp add: dispatch_def split: if_splits)
  then show ?thesis using assms(2) by (rule handleAuth_rateCount)
next
  case False
  with assms have "st' = forward data c st"
    by (simp add: dispatch_def split: if_splits)
  then show ?thesis using assms(2) by simp
qed

lemma onMessage_counts:
  assumes "conns st ws = Some c" "\<not> rateDrop cfg (countReset now st c)"
    and "onMessage cfg ws raw now uuid st = Inr st'"
  shows "\<exists>c'. conns st' ws = Some c' \<and> rateCount c' = rateCount (countReset now st c) + 1"
proof (cases raw)
  case None
  with assms have "st' = setConn ws (counted (countReset now st c)) (windowReset now st)"
    by (simp add: onMessage_Some)
  then show ?thesis by simp
next
  case (Some data)
  let ?c2 = "counted (countReset now st c)"
  from Some assms have "dispatch ws data uuid ?c2 (setConn ws ?c2 (windowReset now st)) = Inr st'"
    by (simp add: onMessage_Some)
  moreover have "conns (setConn ws ?c2 (windowReset now st)) ws = Some ?c2" by simp
  ultimately have "\<exists>c'. conns st' ws = Some c' \<and> rateCount c' = rateCount ?c2"
    by (rule dispatch_rateCount)
  then show ?thesis by simp
qed

lemma onMessage_dropped:
  assumes "conns st ws = Some c" "rateDrop cfg (countReset now st c)"
  shows "onMessage cfg ws raw now uuid st = Inr (setConn ws (countReset now st c) (windowReset now st))"
  using assms by (simp add: onMessage_Some)

lemma rateLimit_countReset [simp]: "rateLimit cfg (countReset now st c) = rateLimit cfg c"
  by (simp add: rateLimit_def)

text \<open>
  C5 (as amended): for a connection and a message arriving at time \<open>now\<close>, after the
  window check has possibly reset the count. If the drop condition holds, the connection
  is authenticated and its count has reached the ceiling of its role; the handler returns
  with no frame sent to anyone and the Registry unchanged, and the count is not
  incremented. If the drop condition does not hold and the handler returns, the
  connection's count has been incremented by one, whether or not the connection is
  authenticated. The ceiling is \<open>RATE_LIMIT_AGENT\<close> for the agent role and
  \<open>RATE_LIMIT_GAME\<close> otherwise, 65 and 25 unless configured.
\<close>

theorem rate_limiter:
  assumes "conns st ws = Some c"
  shows "(rateDrop cfg (countReset now st c) \<longrightarrow>
            role c \<noteq> None
            \<and> rateCount (countReset now st c) \<ge> rateLimit cfg c
            \<and> (\<exists>st'. onMessage cfg ws raw now uuid st = Inr st'
                   \<and> sockets st' = sockets st \<and> agents st' = agents st
                   \<and> conns st' = (conns st)(ws \<mapsto> countReset now st c)))
    \<and> (\<not> rateDrop cfg (countReset now st c) \<and> onMessage cfg ws raw now uuid st = Inr st' \<longrightarrow>
          (\<exists>c'. conns st' ws = Some c' \<and> rateCount c' = rateCount (countReset now st c) + 1))
    \<and> rateDrop cfg (countReset now st c)
        = (role c \<noteq> None \<and> rateCount (countReset now st c) \<ge> rateLimit cfg c)
    \<and> rateLimit cfg c = (if role c = Some Agent then RATE_LIMIT_AGENT cfg else RATE_LIMIT_GAME cfg)
    \<and> RATE_LIMIT_GAME default_config = 25 \<and> RATE_LIMIT_AGENT default_config = 65"
proof -
  have d: "rateDrop cfg (countReset now st c)
        = (role c \<noteq> None \<and> rateCount (countReset now st c) \<ge> rateLimit cfg c)"
    by (simp add: rateDrop_def)
  have a: "\<exists>st'. onMessage cfg ws raw now uuid st = Inr st'
                   \<and> sockets st' = sockets st \<and> agents st' = agents st
                   \<and> conns st' = (conns st)(ws \<mapsto> countReset now st c)"
    if "rateDrop cfg (countReset now st c)"
    using onMessage_dropped[OF assms that, of raw uuid] by simp
  have b: "\<exists>c'. conns st' ws = Some c' \<and> rateCount c' = rateCount (countReset now st c) + 1"
    if "\<not> rateDrop cfg (countReset now st c)" "onMessage cfg ws raw now uuid st = Inr st'"
    using assms that by (rule onMessage_counts)
  have l: "rateLimit cfg c = (if role c = Some Agent then RATE_LIMIT_AGENT cfg else RATE_LIMIT_GAME cfg)"
    by (simp add: rateLimit_def)
  have k: "RATE_LIMIT_GAME default_config = 25 \<and> RATE_LIMIT_AGENT default_config = 65"
    by (simp add: default_config_def configure_def envNumber_def)
  from a b d l k show ?thesis by blast
qed

theorem rate_limiter_witness:
  "conns busyServer 1
     = Some \<lparr>agentId = Some (js ''x''), role = Some Game, lastPing = 0, rateCount = 25, heartbeat = Some 15000\<rparr>
   \<and> rateDrop default_config (countReset 0 busyServer
         \<lparr>agentId = Some (js ''x''), role = Some Game, lastPing = 0, rateCount = 25, heartbeat = Some 15000\<rparr>)
   \<and> (\<exists>st'. onMessage default_config 1 (Some stateMessage) 0 [] busyServer = Inr st'
          \<and> sockets st' = sockets busyServer \<and> agents st' = agents busyServer
          \<and> conns st' 1 = Some \<lparr>agentId = Some (js ''x''), role = Some Game, lastPing = 0,
                                  rateCount = 25, heartbeat = Some 15000\<rparr>)
   \<and> conns pairedServer 1
     = Some \<lparr>agentId = Some (js ''x''), role = Some Game, lastPing = 0, rateCount = 1, heartbeat = Some 15000\<rparr>
   \<and> \<not> rateDrop default_config (countReset 0 pairedServer
         \<lparr>agentId = Some (js ''x''), role = Some Game, lastPing = 0, rateCount = 1, heartbeat = Some 15000\<rparr>)
   \<and> onMessage default_config 1 None 0 [] pairedServer
       = Inr (setConn 1 \<lparr>agentId = Some (js ''x''), role = Some Game, lastPing = 0, rateCount = 2,
                            heartbeat = Some 15000\<rparr> pairedServer)
   \<and> (\<exists>c'. conns (setConn 1 \<lparr>agentId = Some (js ''x''), role = Some Game, lastPing = 0, rateCount = 2,
                            heartbeat = Some 15000\<rparr> pairedServer) 1 = Some c' \<and> rateCount c' = 2)"
proof -
  let ?c25 = "\<lparr>agentId = Some (js ''x''), role = Some Game, lastPing = 0, rateCount = 25, heartbeat = Some 15000\<rparr>"
  let ?c1 = "\<lparr>agentId = Some (js ''x''), role = Some Game, lastPing = 0, rateCount = 1, heartbeat = Some 15000\<rparr>"
  let ?c2 = "\<lparr>agentId = Some (js ''x''), role = Some Game, lastPing = 0, rateCount = 2, heartbeat = Some 15000\<rparr>"
  have h1: "conns busyServer 1 = Some ?c25" by (simp add: busyServer_def)
  have w: "\<not> windowExpired 0 busyServer" "\<not> windowExpired 0 pairedServer"
    by (simp_all add: windowExpired_def busyServer_def pairedServer_def)
  have h2: "rateDrop default_config (countReset 0 busyServer ?c25)"
    using w by (simp add: rateDrop_def rateLimit_def countReset_def default_config_def configure_def envNumber_def)
  have g1: "conns pairedServer 1 = Some ?c1" by (simp add: pairedServer_def)
  have g2: "\<not> rateDrop default_config (countReset 0 pairedServer ?c1)"
    using w by (simp add: rateDrop_def rateLimit_def countReset_def default_config_def configure_def envNumber_def)
  have g3: "onMessage default_config 1 None 0 [] pairedServer = Inr (setConn 1 ?c2 pairedServer)"
    using g1 g2 w by (simp add: onMessage_Some counted_def countReset_def windowReset_def)
  have r1: "countReset 0 busyServer ?c25 = ?c25" using w by (simp add: countReset_def)
  have r2: "rateCount (countReset 0 pairedServer ?c1) + 1 = 2" using w by (simp add: countReset_def)
  from rate_limiter[OF h1, where cfg = default_config and now = 0 and raw = "Some stateMessage"
      and uuid = "[]"] h2
  have "\<exists>st'. onMessage default_config 1 (Some stateMessage) 0 [] busyServer = Inr st'
          \<and> sockets st' = sockets busyServer \<and> agents st' = agents busyServer
          \<and> conns st' = (conns busyServer)(1 \<mapsto> countReset 0 busyServer ?c25)"
    by blast
  then have a: "\<exists>st'. onMessage default_config 1 (Some stateMessage) 0 [] busyServer = Inr st'
          \<and> sockets st' = sockets busyServer \<and> agents st' = agents busyServer
          \<and> conns st' 1 = Some ?c25"
    unfolding r1 by auto
  from rate_limiter[OF g1, where cfg = default_config and now = 0 and raw = None and uuid = "[]"
        and st' = "setConn 1 ?c2 pairedServer"] g2 g3
  have "\<exists>c'. conns (setConn 1 ?c2 pairedServer) 1 = Some c'
          \<and> rateCount c' = rateCount (countReset 0 pairedServer ?c1) + 1"
    by blast
  then have b: "\<exists>c'. conns (setConn 1 ?c2 pairedServer) 1 = Some c' \<and> rateCount c' = 2"
    unfolding r2 .
  from h1 h2 a g1 g2 g3 b show ?thesis by blast
qed

text \<open>The claim as first stated, that only messages arriving after authentication count
  toward the window, fails. Socket 3 authenticates as the game of \<open>x\<close> and sends a state
  message, all within one window: the agent receives it. When 25 unparseable messages
  precede the authentication on the same connection, the same state message is dropped.\<close>

theorem rate_limiter_counterexample:
  "conns pairedServer 3
     = Some \<lparr>agentId = None, role = None, lastPing = 0, rateCount = 0, heartbeat = Some 15000\<rparr>
   \<and> sentTo 2 (messages default_config 3
        [(Some (authMessage (js ''game'') (js ''x'') (js ''c3'') (js ''s1'')), 0, js ''u3''),
         (Some stateMessage, 0, [])] pairedServer)
     = Some [Text (authSuccess (js ''u2'') Agent), Text stateMessage]
   \<and> sentTo 2 (messages default_config 3
        (replicate 25 (None, 0, []) @
          [(Some (authMessage (js ''game'') (js ''x'') (js ''c3'') (js ''s1'')), 0, js ''u3''),
           (Some stateMessage, 0, [])]) pairedServer)
     = Some [Text (authSuccess (js ''u2'') Agent)]"
  by code_simp

section \<open>Messages on an authenticated connection\<close>



lemma conns_ws_send_attach:
  "conns (ws_send ws v (attachSocket aid a r ws' (setConn ws'' c st))) = (conns st)(ws'' \<mapsto> c)"
  by simp




section \<open>The message router\<close>


lemma insertIndex_after:
  assumes "\<forall>p\<in>set front. isArrayIndex (fst p) \<and> indexValue (fst p) < indexValue k"
    and "\<not> isArrayIndex (fst q)"
  shows "insertIndex k v (front @ q # rest) = front @ (k, v) # q # rest"
  using assms by (induction front) simp_all

lemma map_of_append_None:
  "k \<notin> fst ` set xs \<Longrightarrow> k \<notin> fst ` set ys \<Longrightarrow> map_of (xs @ ys) k = None"
  by (simp add: map_of_eq_None_iff)

lemma fold_setProp_indices:
  assumes "\<forall>p\<in>set idx. isArrayIndex (fst p)"
    and "\<forall>p\<in>set front. isArrayIndex (fst p)"
    and "sorted_wrt (<) (map (\<lambda>p. indexValue (fst p)) (front @ idx))"
    and "distinct (map fst (front @ idx))"
    and "\<not> isArrayIndex (fst q)"
    and "\<forall>p\<in>set idx. fst p \<notin> fst ` set (q # rest)"
  shows "fold (\<lambda>(k, v). setProp k v) idx (front @ q # rest) = front @ idx @ q # rest"
  using assms
proof (induction idx arbitrary: front)
  case Nil
  then show ?case by simp
next
  case (Cons p idx)
  obtain k v where p: "p = (k, v)" by (cases p)
  have ik: "isArrayIndex k" using Cons.prems(1) by (simp add: p)
  have fresh1: "k \<notin> fst ` set front" using Cons.prems(4) by (auto simp: p)
  have fresh2: "k \<notin> fst ` set (q # rest)" using Cons.prems(6) by (simp add: p)
  have none: "map_of (front @ q # rest) k = None"
    using fresh1 fresh2 by (rule map_of_append_None)
  have less: "\<forall>x\<in>set front. isArrayIndex (fst x) \<and> indexValue (fst x) < indexValue k"
    using Cons.prems(2,3) by (auto simp: p sorted_wrt_append)
  have step: "setProp k v (front @ q # rest) = (front @ [(k, v)]) @ q # rest"
    using none ik insertIndex_after[OF less Cons.prems(5)] by (simp add: setProp_def)
  have "fold (\<lambda>(k, v). setProp k v) idx ((front @ [(k, v)]) @ q # rest)
          = (front @ [(k, v)]) @ idx @ q # rest"
  proof (rule Cons.IH)
    show "\<forall>p\<in>set idx. isArrayIndex (fst p)" using Cons.prems(1) by simp
    show "\<forall>p\<in>set (front @ [(k, v)]). isArrayIndex (fst p)" using Cons.prems(2) ik by simp
    show "sorted_wrt (<) (map (\<lambda>p. indexValue (fst p)) ((front @ [(k, v)]) @ idx))"
      using Cons.prems(3) by (simp add: p)
    show "distinct (map fst ((front @ [(k, v)]) @ idx))" using Cons.prems(4) by (simp add: p)
    show "\<not> isArrayIndex (fst q)" by (rule Cons.prems(5))
    show "\<forall>p\<in>set idx. fst p \<notin> fst ` set (q # rest)" using Cons.prems(6) by simp
  qed
  then show ?case by (simp add: p step)
qed

lemma fold_setProp_strings:
  assumes "\<forall>p\<in>set strs. \<not> isArrayIndex (fst p)"
    and "distinct (map fst (init @ strs))"
  shows "fold (\<lambda>(k, v). setProp k v) strs init = init @ strs"
  using assms
proof (induction strs arbitrary: init)
  case Nil
  then show ?case by simp
next
  case (Cons p strs)
  obtain k v where p: "p = (k, v)" by (cases p)
  have "k \<notin> fst ` set init" using Cons.prems(2) by (auto simp: p)
  then have none: "map_of init k = None" by (simp add: map_of_eq_None_iff)
  have "\<not> isArrayIndex k" using Cons.prems(1) by (simp add: p)
  with none have step: "setProp k v init = init @ [(k, v)]" by (simp add: setProp_def)
  have "fold (\<lambda>(k, v). setProp k v) strs (init @ [(k, v)]) = (init @ [(k, v)]) @ strs"
    using Cons.prems by (intro Cons.IH) (simp_all add: p)
  then show ?case by (simp add: p step)
qed

lemma type_not_index: "\<not> isArrayIndex (js ''type'')"
  by (simp add: isArrayIndex_def js_def isDigit_def)

lemma spreadAction_untagged:
  assumes "propertyOrder kvs" "map_of kvs (js ''type'') = None"
  shows "spreadAction kvs =
           JObj (takeWhile (\<lambda>p. isArrayIndex (fst p)) kvs
                 @ (js ''type'', JStr (js ''action'')) # dropWhile (\<lambda>p. isArrayIndex (fst p)) kvs)"
proof -
  define idx where "idx = takeWhile (\<lambda>p. isArrayIndex (fst p)) kvs"
  define strs where "strs = dropWhile (\<lambda>p. isArrayIndex (fst p)) kvs"
  define q where "q = (js ''type'', JStr (js ''action''))"
  have kvs: "kvs = idx @ strs" by (simp add: idx_def strs_def)
  have i1: "\<forall>p\<in>set idx. isArrayIndex (fst p)"
    unfolding idx_def by (auto dest: set_takeWhileD)
  have s1: "\<forall>p\<in>set strs. \<not> isArrayIndex (fst p)"
    using assms(1) unfolding strs_def propertyOrder_def list_all_iff by blast
  have so: "sorted_wrt (<) (map (\<lambda>p. indexValue (fst p)) idx)"
    using assms(1) unfolding idx_def propertyOrder_def by blast
  have "distinct (map fst kvs)" using assms(1) unfolding propertyOrder_def by blast
  then have d: "distinct (map fst (idx @ strs))" unfolding kvs .
  have "js ''type'' \<notin> fst ` set kvs" using assms(2) by (simp add: map_of_eq_None_iff)
  then have nt: "js ''type'' \<notin> fst ` set (idx @ strs)" unfolding kvs .
  have fq: "fst q = js ''type''" by (simp add: q_def)
  have a1: "js ''type'' \<notin> fst ` set idx" and a2: "js ''type'' \<notin> fst ` set strs"
    using nt by (simp_all add: image_Un)
  have 1: "fold (\<lambda>(k, v). setProp k v) idx ([] @ q # []) = [] @ idx @ q # []"
  proof (rule fold_setProp_indices)
    show "\<forall>p\<in>set idx. isArrayIndex (fst p)" by (rule i1)
    show "\<forall>p\<in>set []. isArrayIndex (fst p)" by simp
    show "sorted_wrt (<) (map (\<lambda>p. indexValue (fst p)) ([] @ idx))" using so by simp
    show "distinct (map fst ([] @ idx))" using d by simp
    show "\<not> isArrayIndex (fst q)" using type_not_index by (simp add: fq)
    show "\<forall>p\<in>set idx. fst p \<notin> fst ` set [q]"
    proof
      fix p assume "p \<in> set idx"
      then have "fst p \<in> fst ` set idx" by (rule imageI)
      with a1 have "fst p \<noteq> js ''type''" by metis
      then show "fst p \<notin> fst ` set [q]" by (simp add: fq)
    qed
  qed
  have "distinct (map fst idx)" "distinct (map fst strs)" "fst ` set idx \<inter> fst ` set strs = {}"
    using d by simp_all
  then have d2: "distinct (map fst ((idx @ [q]) @ strs))"
    using a1 a2 by (simp add: fq)
  have 2: "fold (\<lambda>(k, v). setProp k v) strs (idx @ [q]) = (idx @ [q]) @ strs"
    using s1 d2 by (rule fold_setProp_strings)
  have "fold (\<lambda>(k, v). setProp k v) (idx @ strs) [q]
          = fold (\<lambda>(k, v). setProp k v) strs (fold (\<lambda>(k, v). setProp k v) idx [q])"
    by simp
  also have "\<dots> = (idx @ [q]) @ strs" using 1 2 by simp
  finally have "fold (\<lambda>(k, v). setProp k v) (idx @ strs) [q] = idx @ q # strs" by simp
  then have "spreadAction (idx @ strs) = JObj (idx @ q # strs)"
    by (simp add: spreadAction_def q_def)
  then show ?thesis unfolding kvs[symmetric] unfolding idx_def strs_def q_def .
qed

lemma sendIfOpen_deliveredTo:
  assumes "sockets S = sockets st"
  shows "deliveredTo peer v st (sendIfOpen peer v S)"
  using assms
  by (auto simp: deliveredTo_def sendIfOpen_def isOpen_def ws_send_def split: option.splits)

lemma onMessage_forward:
  assumes "conns st ws = Some c" "\<not> rateDrop cfg (countReset now st c)"
    and "data \<noteq> JNull" "getProp data (js ''type'') \<noteq> Some (JStr (js ''auth''))"
  shows "onMessage cfg ws (Some data) now uuid st =
           Inr (forward data (counted (countReset now st c))
                 (setConn ws (counted (countReset now st c)) (windowReset now st)))"
  using assms by (simp add: onMessage_Some dispatch_def)

lemma forward_game:
  assumes "role c = Some Game" "agentId c = Some aid" "aid \<noteq> []" "agents st aid = Some a"
    and "getProp data (js ''type'') = Some (JStr (js ''state''))"
  shows "forward data c st = sendIfOpen (agentWs a) data st"
  using assms by (simp add: forward_def)

lemma forward_agent:
  assumes "role c = Some Agent" "agentId c = Some aid" "aid \<noteq> []" "agents st aid = Some a"
    and "getProp data (js ''type'') = Some (JStr (js ''action''))
         \<or> (getProp data (js ''steer'') \<noteq> None \<and> getProp data (js ''jump'') \<noteq> None)"
  shows "forward data c st = sendIfOpen (gameWs a) (actionPayload data) st"
  using assms by (auto simp: forward_def)


lemma outbox_closeSafe:
  "map_option outbox (sockets (closeSafe w code st) x) = map_option outbox (sockets st x)"
  by (simp add: closeSafe_def split: option.splits)

lemma outbox_evict:
  "map_option outbox (sockets (evict old ws st) x) = map_option outbox (sockets st x)"
  by (simp add: evict_def outbox_closeSafe split: option.splits)

lemma outbox_attachSocket:
  "map_option outbox (sockets (attachSocket aid a r ws st) x) = map_option outbox (sockets st x)"
  by (simp add: attachSocket_def Let_def outbox_evict)

lemma handleAuth_outbox:
  assumes "handleAuth ws data uuid c st = Inr st'" "x \<noteq> ws"
  shows "map_option outbox (sockets st' x) = map_option outbox (sockets st x)"
proof -
  from assms(1) consider
      (fail) "st' = ws_send ws authFailure st"
    | (ok) aid a r where
        "st' = ws_send ws (authSuccess uuid r)
                 (attachSocket aid a r ws (setConn ws (c\<lparr>agentId := Some aid, role := Some r\<rparr>) st))"
    by (auto simp: handleAuth_def Let_def split: option.splits if_splits prod.splits)
  then show ?thesis
  proof cases
    case fail
    then show ?thesis using assms(2) by (simp add: sockets_ws_send_other)
  next
    case ok
    then show ?thesis using assms(2) by (simp add: sockets_ws_send_other outbox_attachSocket)
  qed
qed

lemma onMessage_auth:
  assumes "conns st ws = Some c" "\<not> rateDrop cfg (countReset now st c)"
    and "getProp data (js ''type'') = Some (JStr (js ''auth''))"
  shows "onMessage cfg ws (Some data) now uuid st =
           handleAuth ws data uuid (counted (countReset now st c))
             (setConn ws (counted (countReset now st c)) (windowReset now st))"
  using assms getProp_JNull_type[OF assms(3)] by (simp add: onMessage_Some dispatch_def)

text \<open>
  C2 (as amended): for an authenticated connection bound to a Session, on a message that
  passes the rate limiter. From the game role, a message of type \<open>state\<close> is delivered,
  as parsed, to the Session's agent socket. From the agent role, a message of type
  \<open>action\<close> is delivered unchanged to the Session's game socket, and an object with no
  \<open>type\<close> property that has both \<open>steer\<close> and \<open>jump\<close> is delivered with the property
  \<open>type: action\<close> added: it comes after the object's array indices and before its
  other properties, which is where the object literal's first key is enumerated.
  Delivery (\<open>deliveredTo\<close>) means: when the peer socket is present and open, the payload
  is appended to what it is sent and no other socket changes; otherwise no socket changes
  at all, so the sender is not notified. The Registry is unchanged. A message of type
  \<open>auth\<close> is handed to the authentication branch whatever the connection's role and
  whatever else the message carries: the handler's result is that of \<open>handleAuth\<close>, and
  no message is appended to what any socket other than the sender's is sent (the branch
  may close the socket it evicts, it forwards nothing).
\<close>

theorem message_router:
  assumes "conns st ws = Some c" and "\<not> rateDrop cfg (countReset now st c)"
    and "agentId c = Some aid" and "aid \<noteq> []" and "agents st aid = Some a"
  shows "(role c = Some Game \<and> getProp data (js ''type'') = Some (JStr (js ''state'')) \<longrightarrow>
            (\<exists>st'. onMessage cfg ws (Some data) now uuid st = Inr st'
               \<and> deliveredTo (agentWs a) data st st' \<and> agents st' = agents st))
    \<and> (role c = Some Agent \<and> getProp data (js ''type'') = Some (JStr (js ''action'')) \<longrightarrow>
            (\<exists>st'. onMessage cfg ws (Some data) now uuid st = Inr st'
               \<and> deliveredTo (gameWs a) data st st' \<and> agents st' = agents st))
    \<and> (role c = Some Agent \<and> propertyOrder kvs \<and> map_of kvs (js ''type'') = None
         \<and> map_of kvs (js ''steer'') \<noteq> None \<and> map_of kvs (js ''jump'') \<noteq> None \<longrightarrow>
            (\<exists>st'. onMessage cfg ws (Some (JObj kvs)) now uuid st = Inr st'
               \<and> deliveredTo (gameWs a)
                    (JObj (takeWhile (\<lambda>p. isArrayIndex (fst p)) kvs
                           @ (js ''type'', JStr (js ''action''))
                             # dropWhile (\<lambda>p. isArrayIndex (fst p)) kvs)) st st'
               \<and> agents st' = agents st))
    \<and> (getProp data (js ''type'') = Some (JStr (js ''auth'')) \<longrightarrow>
          onMessage cfg ws (Some data) now uuid st =
            handleAuth ws data uuid (counted (countReset now st c))
              (setConn ws (counted (countReset now st c)) (windowReset now st))
          \<and> (\<forall>st' x. onMessage cfg ws (Some data) now uuid st = Inr st' \<and> x \<noteq> ws \<longrightarrow>
                map_option outbox (sockets st' x) = map_option outbox (sockets st x)))"
proof -
  let ?c2 = "counted (countReset now st c)"
  let ?S = "setConn ws ?c2 (windowReset now st)"
  have S: "sockets ?S = sockets st" "agents ?S aid = Some a" "agentId ?c2 = Some aid"
    using assms by simp_all
  have g: "\<exists>st'. onMessage cfg ws (Some data) now uuid st = Inr st'
               \<and> deliveredTo (agentWs a) data st st' \<and> agents st' = agents st"
    if h: "role c = Some Game" "getProp data (js ''type'') = Some (JStr (js ''state''))"
  proof -
    have "data \<noteq> JNull" using h(2) by (rule getProp_JNull_type)
    moreover have "getProp data (js ''type'') \<noteq> Some (JStr (js ''auth''))" using h(2) by simp
    ultimately have "onMessage cfg ws (Some data) now uuid st = Inr (forward data ?c2 ?S)"
      using assms(1,2) by (intro onMessage_forward)
    moreover have "forward data ?c2 ?S = sendIfOpen (agentWs a) data ?S"
      using h S assms(4) by (intro forward_game) simp_all
    ultimately show ?thesis
      using sendIfOpen_deliveredTo[OF S(1), of "agentWs a" data] by simp
  qed
  have a1: "\<exists>st'. onMessage cfg ws (Some data) now uuid st = Inr st'
               \<and> deliveredTo (gameWs a) data st st' \<and> agents st' = agents st"
    if h: "role c = Some Agent" "getProp data (js ''type'') = Some (JStr (js ''action''))"
  proof -
    have "data \<noteq> JNull" using h(2) by (rule getProp_JNull_type)
    moreover have "getProp data (js ''type'') \<noteq> Some (JStr (js ''auth''))" using h(2) by simp
    ultimately have "onMessage cfg ws (Some data) now uuid st = Inr (forward data ?c2 ?S)"
      using assms(1,2) by (intro onMessage_forward)
    moreover have "forward data ?c2 ?S = sendIfOpen (gameWs a) (actionPayload data) ?S"
      using h S assms(4) by (intro forward_agent) simp_all
    moreover have "actionPayload data = data" using h(2) by (simp add: actionPayload_def)
    ultimately show ?thesis
      using sendIfOpen_deliveredTo[OF S(1), of "gameWs a" data] by simp
  qed
  have a2: "\<exists>st'. onMessage cfg ws (Some (JObj kvs)) now uuid st = Inr st'
               \<and> deliveredTo (gameWs a)
                    (JObj (takeWhile (\<lambda>p. isArrayIndex (fst p)) kvs
                           @ (js ''type'', JStr (js ''action''))
                             # dropWhile (\<lambda>p. isArrayIndex (fst p)) kvs)) st st'
               \<and> agents st' = agents st"
    if h: "role c = Some Agent" "propertyOrder kvs" "map_of kvs (js ''type'') = None"
      "map_of kvs (js ''steer'') \<noteq> None" "map_of kvs (js ''jump'') \<noteq> None"
  proof -
    let ?d = "JObj kvs"
    let ?p = "JObj (takeWhile (\<lambda>p. isArrayIndex (fst p)) kvs
                           @ (js ''type'', JStr (js ''action''))
                             # dropWhile (\<lambda>p. isArrayIndex (fst p)) kvs)"
    have "getProp ?d (js ''type'') \<noteq> Some (JStr (js ''auth''))" using h(3) by simp
    then have "onMessage cfg ws (Some ?d) now uuid st = Inr (forward ?d ?c2 ?S)"
      using assms(1,2) by (intro onMessage_forward) simp_all
    moreover have "forward ?d ?c2 ?S = sendIfOpen (gameWs a) (actionPayload ?d) ?S"
      using h S assms(4) by (intro forward_agent) simp_all
    moreover have "actionPayload ?d = ?p"
      using h(3) spreadAction_untagged[OF h(2,3)] by (simp add: actionPayload_def)
    ultimately show ?thesis
      using sendIfOpen_deliveredTo[OF S(1), of "gameWs a" ?p] by simp
  qed
  have au: "onMessage cfg ws (Some data) now uuid st = handleAuth ws data uuid ?c2 ?S
          \<and> (\<forall>st' x. onMessage cfg ws (Some data) now uuid st = Inr st' \<and> x \<noteq> ws \<longrightarrow>
                map_option outbox (sockets st' x) = map_option outbox (sockets st x))"
    if h: "getProp data (js ''type'') = Some (JStr (js ''auth''))"
  proof -
    have e: "onMessage cfg ws (Some data) now uuid st = handleAuth ws data uuid ?c2 ?S"
      using assms(1,2) h by (rule onMessage_auth)
    have "map_option outbox (sockets st' x) = map_option outbox (sockets st x)"
      if "onMessage cfg ws (Some data) now uuid st = Inr st'" "x \<noteq> ws" for st' x
    proof -
      have "handleAuth ws data uuid ?c2 ?S = Inr st'" using that(1) e by simp
      then have "map_option outbox (sockets st' x) = map_option outbox (sockets ?S x)"
        using that(2) by (rule handleAuth_outbox)
      then show ?thesis by (simp add: S(1))
    qed
    with e show ?thesis by blast
  qed
  from g a1 a2 au show ?thesis by blast
qed


theorem message_router_witness:
  "conns pairedServer 1
     = Some \<lparr>agentId = Some (js ''x''), role = Some Game, lastPing = 0, rateCount = 1, heartbeat = Some 15000\<rparr>
   \<and> conns pairedServer 2
     = Some \<lparr>agentId = Some (js ''x''), role = Some Agent, lastPing = 0, rateCount = 1, heartbeat = Some 15000\<rparr>
   \<and> agents pairedServer (js ''x'')
     = Some \<lparr>accessKey = js ''s1'', created = 0, gameWs = Some 1, agentWs = Some 2\<rparr>
   \<and> getProp stateMessage (js ''type'') = Some (JStr (js ''state''))
   \<and> propertyOrder botAction \<and> map_of botAction (js ''type'') = None
   \<and> map_of botAction (js ''steer'') \<noteq> None \<and> map_of botAction (js ''jump'') \<noteq> None
   \<and> propertyOrder indexedAction \<and> map_of indexedAction (js ''type'') = None
   \<and> map_of indexedAction (js ''steer'') \<noteq> None \<and> map_of indexedAction (js ''jump'') \<noteq> None
   \<and> (\<exists>st'. onMessage default_config 1 (Some stateMessage) 0 [] pairedServer = Inr st'
          \<and> sockets st' 2 = Some \<lparr>readyState = OPEN, closeCode = None,
                outbox = [Text (authSuccess (js ''u2'') Agent), Text stateMessage]\<rparr>
          \<and> sockets st' 1 = sockets pairedServer 1)
   \<and> (\<exists>st'. onMessage default_config 2 (Some (JObj botAction)) 0 [] pairedServer = Inr st'
          \<and> sockets st' 1 = Some \<lparr>readyState = OPEN, closeCode = None,
                outbox = [Text (authSuccess (js ''u1'') Game),
                          Text (JObj ((js ''type'', JStr (js ''action'')) # botAction))]\<rparr>
          \<and> sockets st' 2 = sockets pairedServer 2)
   \<and> (\<exists>st'. onMessage default_config 2 (Some (JObj indexedAction)) 0 [] pairedServer = Inr st'
          \<and> sockets st' 1 = Some \<lparr>readyState = OPEN, closeCode = None,
                outbox = [Text (authSuccess (js ''u1'') Game),
                          Text (JObj [(js ''7'', JNull), (js ''10'', JNull),
                                      (js ''type'', JStr (js ''action'')),
                                      (js ''steer'', JNum (js ''0.5'')), (js ''jump'', JBool False)])]\<rparr>)
   \<and> getProp (JObj ((js ''type'', JStr (js ''auth'')) # botAction)) (js ''type'')
       = Some (JStr (js ''auth''))
   \<and> onMessage default_config 2 (Some (JObj ((js ''type'', JStr (js ''auth'')) # botAction))) 0 []
         pairedServer
       = Inr (pairedServer\<lparr>
           sockets := (sockets pairedServer)(2 \<mapsto> \<lparr>readyState = OPEN, closeCode = None,
              outbox = [Text (authSuccess (js ''u2'') Agent), Text authFailure]\<rparr>),
           conns := (conns pairedServer)(2 \<mapsto> \<lparr>agentId = Some (js ''x''), role = Some Agent,
              lastPing = 0, rateCount = 2, heartbeat = Some 15000\<rparr>)\<rparr>)"
proof -
  let ?cg = "\<lparr>agentId = Some (js ''x''), role = Some Game, lastPing = 0, rateCount = 1, heartbeat = Some 15000\<rparr>"
  let ?ca = "\<lparr>agentId = Some (js ''x''), role = Some Agent, lastPing = 0, rateCount = 1, heartbeat = Some 15000\<rparr>"
  let ?a = "\<lparr>accessKey = js ''s1'', created = 0, gameWs = Some 1, agentWs = Some 2\<rparr>"
  let ?am = "JObj ((js ''type'', JStr (js ''auth'')) # botAction)"
  have g1: "conns pairedServer 1 = Some ?cg" and a1: "conns pairedServer 2 = Some ?ca"
    and ag: "agents pairedServer (js ''x'') = Some ?a"
    by (simp_all add: pairedServer_def)
  have w: "\<not> windowExpired 0 pairedServer" by (simp add: windowExpired_def pairedServer_def)
  have g2: "\<not> rateDrop default_config (countReset 0 pairedServer ?cg)"
    and a2: "\<not> rateDrop default_config (countReset 0 pairedServer ?ca)"
    using w by (simp_all add: rateDrop_def rateLimit_def countReset_def default_config_def
        configure_def envNumber_def)
  have i1: "agentId ?cg = Some (js ''x'')" "agentId ?ca = Some (js ''x'')" "js ''x'' \<noteq> []"
    by simp_all
  have s: "getProp stateMessage (js ''type'') = Some (JStr (js ''state''))"
    by (simp add: stateMessage_def)
  have b0: "propertyOrder botAction" by code_simp
  have b: "map_of botAction (js ''type'') = None"
    "map_of botAction (js ''steer'') \<noteq> None" "map_of botAction (js ''jump'') \<noteq> None"
    by (simp_all add: botAction_def)
  have x0: "propertyOrder indexedAction" by code_simp
  have x: "map_of indexedAction (js ''type'') = None"
    "map_of indexedAction (js ''steer'') \<noteq> None" "map_of indexedAction (js ''jump'') \<noteq> None"
    by (simp_all add: indexedAction_def)
  have pb: "takeWhile (\<lambda>p. isArrayIndex (fst p)) botAction
              @ (js ''type'', JStr (js ''action'')) # dropWhile (\<lambda>p. isArrayIndex (fst p)) botAction
            = (js ''type'', JStr (js ''action'')) # botAction"
    by code_simp
  have px: "takeWhile (\<lambda>p. isArrayIndex (fst p)) indexedAction
              @ (js ''type'', JStr (js ''action'')) # dropWhile (\<lambda>p. isArrayIndex (fst p)) indexedAction
            = [(js ''7'', JNull), (js ''10'', JNull), (js ''type'', JStr (js ''action'')),
               (js ''steer'', JNum (js ''0.5'')), (js ''jump'', JBool False)]"
    by code_simp
  from message_router[OF g1 g2 i1(1) i1(3) ag, where data = stateMessage and kvs = "[]"
      and uuid = "[]"] s
  obtain st1 where st1: "onMessage default_config 1 (Some stateMessage) 0 [] pairedServer = Inr st1"
    "deliveredTo (agentWs ?a) stateMessage pairedServer st1"
    by auto
  from st1(2) have d1: "sockets st1 2 = Some \<lparr>readyState = OPEN, closeCode = None,
                outbox = [Text (authSuccess (js ''u2'') Agent), Text stateMessage]\<rparr>"
      "sockets st1 1 = sockets pairedServer 1"
    by (simp_all add: deliveredTo_def pairedServer_def)
  from message_router[OF a1 a2 i1(2) i1(3) ag, where kvs = botAction and data = JNull
      and uuid = "[]"] b0 b
  have "\<exists>st'. onMessage default_config 2 (Some (JObj botAction)) 0 [] pairedServer = Inr st'
          \<and> deliveredTo (gameWs ?a) (JObj ((js ''type'', JStr (js ''action'')) # botAction))
                pairedServer st'"
    unfolding pb by (simp del: One_nat_def) blast
  then obtain st2 where st2: "onMessage default_config 2 (Some (JObj botAction)) 0 [] pairedServer = Inr st2"
    "deliveredTo (gameWs ?a) (JObj ((js ''type'', JStr (js ''action'')) # botAction)) pairedServer st2"
    by blast
  from st2(2) have d2: "sockets st2 1 = Some \<lparr>readyState = OPEN, closeCode = None,
                outbox = [Text (authSuccess (js ''u1'') Game),
                          Text (JObj ((js ''type'', JStr (js ''action'')) # botAction))]\<rparr>"
      "sockets st2 2 = sockets pairedServer 2"
    by (simp_all add: deliveredTo_def pairedServer_def)
  from message_router[OF a1 a2 i1(2) i1(3) ag, where kvs = indexedAction and data = JNull
      and uuid = "[]"] x0 x
  have "\<exists>st'. onMessage default_config 2 (Some (JObj indexedAction)) 0 [] pairedServer = Inr st'
          \<and> deliveredTo (gameWs ?a) (JObj [(js ''7'', JNull), (js ''10'', JNull),
               (js ''type'', JStr (js ''action'')),
               (js ''steer'', JNum (js ''0.5'')), (js ''jump'', JBool False)]) pairedServer st'"
    unfolding px by (simp del: One_nat_def) blast
  then obtain st3 where st3: "onMessage default_config 2 (Some (JObj indexedAction)) 0 [] pairedServer = Inr st3"
    "deliveredTo (gameWs ?a) (JObj [(js ''7'', JNull), (js ''10'', JNull),
         (js ''type'', JStr (js ''action'')),
         (js ''steer'', JNum (js ''0.5'')), (js ''jump'', JBool False)]) pairedServer st3"
    by blast
  from st3(2) have d3: "sockets st3 1 = Some \<lparr>readyState = OPEN, closeCode = None,
                outbox = [Text (authSuccess (js ''u1'') Game),
                          Text (JObj [(js ''7'', JNull), (js ''10'', JNull),
                                      (js ''type'', JStr (js ''action'')),
                                      (js ''steer'', JNum (js ''0.5'')), (js ''jump'', JBool False)])]\<rparr>"
    by (simp add: deliveredTo_def pairedServer_def)
  have t: "getProp ?am (js ''type'') = Some (JStr (js ''auth''))" by simp
  from message_router[OF a1 a2 i1(2) i1(3) ag, where data = ?am and kvs = "[]" and uuid = "[]"] t
  have "onMessage default_config 2 (Some ?am) 0 [] pairedServer
          = handleAuth 2 ?am [] (counted (countReset 0 pairedServer ?ca))
              (setConn 2 (counted (countReset 0 pairedServer ?ca)) (windowReset 0 pairedServer))"
    by blast
  also have "\<dots> = Inr (pairedServer\<lparr>
           sockets := (sockets pairedServer)(2 \<mapsto> \<lparr>readyState = OPEN, closeCode = None,
              outbox = [Text (authSuccess (js ''u2'') Agent), Text authFailure]\<rparr>),
           conns := (conns pairedServer)(2 \<mapsto> \<lparr>agentId = Some (js ''x''), role = Some Agent,
              lastPing = 0, rateCount = 2, heartbeat = Some 15000\<rparr>)\<rparr>)"
    by (simp add: handleAuth_def agentsGet_def botAction_def ws_send_def setConn_def counted_def
        countReset_def windowReset_def windowExpired_def pairedServer_def fun_eq_iff)
  finally have au: "onMessage default_config 2 (Some ?am) 0 [] pairedServer
       = Inr (pairedServer\<lparr>
           sockets := (sockets pairedServer)(2 \<mapsto> \<lparr>readyState = OPEN, closeCode = None,
              outbox = [Text (authSuccess (js ''u2'') Agent), Text authFailure]\<rparr>),
           conns := (conns pairedServer)(2 \<mapsto> \<lparr>agentId = Some (js ''x''), role = Some Agent,
              lastPing = 0, rateCount = 2, heartbeat = Some 15000\<rparr>)\<rparr>)" .
  have e1: "\<exists>st'. onMessage default_config 1 (Some stateMessage) 0 [] pairedServer = Inr st'
          \<and> sockets st' 2 = Some \<lparr>readyState = OPEN, closeCode = None,
                outbox = [Text (authSuccess (js ''u2'') Agent), Text stateMessage]\<rparr>
          \<and> sockets st' 1 = sockets pairedServer 1"
    using st1(1) d1 by blast
  have e2: "\<exists>st'. onMessage default_config 2 (Some (JObj botAction)) 0 [] pairedServer = Inr st'
          \<and> sockets st' 1 = Some \<lparr>readyState = OPEN, closeCode = None,
                outbox = [Text (authSuccess (js ''u1'') Game),
                          Text (JObj ((js ''type'', JStr (js ''action'')) # botAction))]\<rparr>
          \<and> sockets st' 2 = sockets pairedServer 2"
    using st2(1) d2 by blast
  have e3: "\<exists>st'. onMessage default_config 2 (Some (JObj indexedAction)) 0 [] pairedServer = Inr st'
          \<and> sockets st' 1 = Some \<lparr>readyState = OPEN, closeCode = None,
                outbox = [Text (authSuccess (js ''u1'') Game),
                          Text (JObj [(js ''7'', JNull), (js ''10'', JNull),
                                      (js ''type'', JStr (js ''action'')),
                                      (js ''steer'', JNum (js ''0.5'')), (js ''jump'', JBool False)])]\<rparr>"
    using st3(1) d3 by blast
  show ?thesis
    using g1 a1 ag s b0 b x0 x e1 e2 e3 t au by (intro conjI)
qed

text \<open>The claim as first stated, for every agent message that carries \<open>steer\<close> and
  \<open>jump\<close>, fails when the message has a \<open>type\<close> of its own other than \<open>action\<close>.
  With type \<open>state\<close> the game is sent the message still tagged \<open>state\<close>, since the
  spread properties overwrite the tag; with type \<open>auth\<close> nothing is forwarded and the
  sender is answered with an authentication failure.\<close>

theorem message_router_counterexample:
  "conns pairedServer 2
     = Some \<lparr>agentId = Some (js ''x''), role = Some Agent, lastPing = 0, rateCount = 1, heartbeat = Some 15000\<rparr>
   \<and> sentTo 1 (Inr pairedServer) = Some [Text (authSuccess (js ''u1'') Game)]
   \<and> sentTo 2 (Inr pairedServer) = Some [Text (authSuccess (js ''u2'') Agent)]
   \<and> sentTo 1 (onMessage default_config 2
         (Some (JObj ((js ''type'', JStr (js ''state'')) # botAction))) 0 [] pairedServer)
       = Some [Text (authSuccess (js ''u1'') Game),
               Text (JObj ((js ''type'', JStr (js ''state'')) # botAction))]
   \<and> sentTo 1 (onMessage default_config 2
         (Some (JObj ((js ''type'', JStr (js ''auth'')) # botAction))) 0 [] pairedServer)
       = Some [Text (authSuccess (js ''u1'') Game)]
   \<and> sentTo 2 (onMessage default_config 2
         (Some (JObj ((js ''type'', JStr (js ''auth'')) # botAction))) 0 [] pairedServer)
       = Some [Text (authSuccess (js ''u2'') Agent), Text authFailure]"
  by code_simp


section \<open>The secret of a Session\<close>

lemma secretOf_agents: "agents st' = agents st \<Longrightarrow> secretOf st' aid = secretOf st aid"
  by (simp add: secretOf_def)














section \<open>The heartbeat monitor\<close>

lemma timerDelay_conns: "conns st' = conns st \<Longrightarrow> timerDelay st' = timerDelay st"
  by (simp add: timerDelay_def fun_eq_iff)

lemma timerDelay_setConn:
  "timerDelay (setConn ws c st) w = (if w = ws then heartbeat c else timerDelay st w)"
  by (simp add: timerDelay_def)

lemma timerDelay_setConn_same:
  assumes "conns st ws = Some c" "heartbeat c' = heartbeat c"
  shows "timerDelay (setConn ws c' st) = timerDelay st"
  using assms by (auto simp: timerDelay_def fun_eq_iff)

lemma handleAuth_timer:
  assumes "handleAuth ws data uuid c st = Inr st'" "conns st ws = Some c"
  shows "timerDelay st' = timerDelay st"
proof -
  from assms(1) consider
      (fail) "st' = ws_send ws authFailure st"
    | (ok) aid a r where
        "st' = ws_send ws (authSuccess uuid r)
                 (attachSocket aid a r ws (setConn ws (c\<lparr>agentId := Some aid, role := Some r\<rparr>) st))"
    by (auto simp: handleAuth_def Let_def split: option.splits if_splits prod.splits)
  then show ?thesis
  proof cases
    case fail
    have "conns st' = conns st" unfolding fail by simp
    then show ?thesis by (rule timerDelay_conns)
  next
    case ok
    let ?S = "setConn ws (c\<lparr>agentId := Some aid, role := Some r\<rparr>) st"
    have "conns st' = conns ?S" unfolding ok by simp
    then have "timerDelay st' = timerDelay ?S" by (rule timerDelay_conns)
    also have "timerDelay ?S = timerDelay st"
      using assms(2) by (rule timerDelay_setConn_same) simp
    finally show ?thesis .
  qed
qed

lemma dispatch_timer:
  assumes "dispatch ws data uuid c st = Inr st'" "conns st ws = Some c"
  shows "timerDelay st' = timerDelay st"
proof (cases "getProp data (js ''type'') = Some (JStr (js ''auth''))")
  case True
  with assms have "handleAuth ws data uuid c st = Inr st'"
    by (simp add: dispatch_def split: if_splits)
  then show ?thesis using assms(2) by (rule handleAuth_timer)
next
  case False
  with assms have "st' = forward data c st"
    by (simp add: dispatch_def split: if_splits)
  then have "conns st' = conns st" by simp
  then show ?thesis by (rule timerDelay_conns)
qed

lemma onMessage_timer:
  assumes "onMessage cfg ws raw now uuid st = Inr st'"
  shows "timerDelay st' = timerDelay st"
proof (cases "conns st ws")
  case None
  with assms show ?thesis by (simp add: onMessage_def)
next
  case (Some c)
  let ?c1 = "countReset now st c"
  have w: "conns (windowReset now st) ws = Some c" using Some by simp
  have t0: "timerDelay (windowReset now st) = timerDelay st"
    by (rule timerDelay_conns) simp
  have t1: "timerDelay (setConn ws ?c1 (windowReset now st)) = timerDelay st"
    using timerDelay_setConn_same[OF w, of ?c1] t0 by simp
  have t2: "timerDelay (setConn ws (counted ?c1) (windowReset now st)) = timerDelay st"
    using timerDelay_setConn_same[OF w, of "counted ?c1"] t0 by simp
  show ?thesis
  proof (cases "rateDrop cfg ?c1")
    case True
    with assms Some have "st' = setConn ws ?c1 (windowReset now st)"
      by (simp add: onMessage_Some)
    then show ?thesis using t1 by simp
  next
    case nd: False
    show ?thesis
    proof (cases raw)
      case None
      with nd assms Some have "st' = setConn ws (counted ?c1) (windowReset now st)"
        by (simp add: onMessage_Some)
      then show ?thesis using t2 by simp
    next
      case (Some data)
      with nd assms \<open>conns st ws = Some c\<close> have
        "dispatch ws data uuid (counted ?c1) (setConn ws (counted ?c1) (windowReset now st)) = Inr st'"
        by (simp add: onMessage_Some)
      moreover have "conns (setConn ws (counted ?c1) (windowReset now st)) ws = Some (counted ?c1)"
        by simp
      ultimately have "timerDelay st' = timerDelay (setConn ws (counted ?c1) (windowReset now st))"
        by (rule dispatch_timer)
      then show ?thesis using t2 by simp
    qed
  qed
qed

lemma timer_step:
  assumes "step cfg ev st = Inr st'" "timerDelay st' w = Some d"
  shows "timerDelay st w = Some d \<or> d = heartbeatDelay cfg"
proof (cases ev)
  case (Connection ws now)
  with assms show ?thesis
    by (auto simp: onConnection_def timerDelay_def closeSafe_def newSocket_def
        split: if_splits option.splits)
next
  case (Message ws raw now uuid)
  with assms have "timerDelay st' = timerDelay st" by (auto intro: onMessage_timer)
  with assms(2) show ?thesis by simp
next
  case (Pong ws now)
  with assms show ?thesis
    by (auto simp: onPong_def timerDelay_def split: option.splits if_splits)
next
  case (Heartbeat ws now)
  with assms show ?thesis
    by (auto simp: onHeartbeat_def timerDelay_def split: option.splits if_splits)
next
  case (Close ws)
  with assms show ?thesis
    by (auto simp: onClose_def timerDelay_def split: option.splits if_splits)
next
  case (Error ws)
  with assms show ?thesis
    by (auto simp: onError_def timerDelay_def split: option.splits if_splits)
next
  case (Register body now rid key)
  with assms have "conns st' = conns st"
    by (auto simp: onRegister_def Let_def split: option.splits)
  then have "timerDelay st' = timerDelay st" by (rule timerDelay_conns)
  then show ?thesis using assms(2) by simp
qed

lemma reachable_timer:
  "reachable cfg st \<Longrightarrow> timerDelay st w = Some d \<Longrightarrow> d = heartbeatDelay cfg"
proof (induction arbitrary: d rule: reachable.induct)
  case (reachable_initial t0)
  then show ?case by (simp add: timerDelay_def initial_def)
next
  case (reachable_step st ev st')
  from timer_step[OF reachable_step.hyps(3) reachable_step.prems]
  show ?case using reachable_step.IH by blast
qed

lemma onHeartbeat_timeout:
  assumes "conns st ws = Some c" "heartbeat c = Some d" "sockets st ws = Some sk" "readyState sk = OPEN"
    and "now - lastPing c > HEARTBEAT_MS cfg"
  shows "onHeartbeat cfg ws now st =
           st\<lparr>conns := (conns st)(ws \<mapsto> c\<lparr>heartbeat := None\<rparr>),
              sockets := (sockets st)(ws \<mapsto> sk\<lparr>readyState := CLOSING, closeCode := Some 1000\<rparr>)\<rparr>"
  using assms by (simp add: onHeartbeat_def closeSafe_def setConn_def)

lemma onHeartbeat_ping:
  assumes "conns st ws = Some c" "heartbeat c = Some d" "sockets st ws = Some sk" "readyState sk = OPEN"
    and "now - lastPing c \<le> HEARTBEAT_MS cfg"
  shows "onHeartbeat cfg ws now st =
           st\<lparr>sockets := (sockets st)(ws \<mapsto> sk\<lparr>outbox := outbox sk @ [Ping]\<rparr>)\<rparr>"
  using assms by (simp add: onHeartbeat_def isOpen_def ws_ping_def)

lemma onPong_state:
  assumes "conns st ws = Some c"
  shows "onPong ws now st = st\<lparr>conns := (conns st)(ws \<mapsto> c\<lparr>lastPing := now\<rparr>)\<rparr>"
  using assms by (simp add: onPong_def setConn_def)

lemma heartbeats_armed:
  assumes "conns st ws = Some c" "heartbeat c = Some d"
  shows "heartbeats cfg ws t (Suc n) st = heartbeats cfg ws (t + d) n (onHeartbeat cfg ws (t + d) st)"
  using assms by (simp add: timerDelay_def)

lemma heartbeats_pings:
  assumes "conns st ws = Some c" "heartbeat c = Some d" "sockets st ws = Some sk" "readyState sk = OPEN"
    and "0 \<le> d"
    and "t + int n * d \<le> lastPing c + HEARTBEAT_MS cfg"
  shows "conns (heartbeats cfg ws t n st) ws = Some c
         \<and> sockets (heartbeats cfg ws t n st) ws = Some (sk\<lparr>outbox := outbox sk @ replicate n Ping\<rparr>)"
  using assms
proof (induction n arbitrary: t st sk)
  case 0
  then show ?case by simp
next
  case (Suc n)
  let ?sk1 = "sk\<lparr>outbox := outbox sk @ [Ping]\<rparr>"
  let ?st1 = "st\<lparr>sockets := (sockets st)(ws \<mapsto> ?sk1)\<rparr>"
  have "0 \<le> int n * d" using Suc.prems(5) by simp
  then have le: "(t + d) - lastPing c \<le> HEARTBEAT_MS cfg"
    and le': "(t + d) + int n * d \<le> lastPing c + HEARTBEAT_MS cfg"
    using Suc.prems(6) by (simp_all add: algebra_simps)
  have 1: "onHeartbeat cfg ws (t + d) st = ?st1"
    using Suc.prems(1-4) le by (rule onHeartbeat_ping)
  have 2: "heartbeats cfg ws t (Suc n) st = heartbeats cfg ws (t + d) n ?st1"
    using heartbeats_armed[OF Suc.prems(1,2)] 1 by simp
  have "conns (heartbeats cfg ws (t + d) n ?st1) ws = Some c
         \<and> sockets (heartbeats cfg ws (t + d) n ?st1) ws
             = Some (?sk1\<lparr>outbox := outbox ?sk1 @ replicate n Ping\<rparr>)"
    using Suc.prems(1,2,4,5) le' by (intro Suc.IH) simp_all
  then show ?case unfolding 2 by (simp add: replicate_app_Cons_same)
qed

lemma heartbeats_closes:
  assumes "conns st ws = Some c" "heartbeat c = Some d" "sockets st ws = Some sk" "readyState sk = OPEN"
    and "0 \<le> d"
    and "t + int n * d \<le> lastPing c + HEARTBEAT_MS cfg"
    and "lastPing c + HEARTBEAT_MS cfg < t + int (Suc n) * d"
  shows "conns (heartbeats cfg ws t (Suc n) st) ws = Some (c\<lparr>heartbeat := None\<rparr>)
         \<and> sockets (heartbeats cfg ws t (Suc n) st) ws
             = Some (sk\<lparr>outbox := outbox sk @ replicate n Ping,
                        readyState := CLOSING, closeCode := Some 1000\<rparr>)"
  using assms
proof (induction n arbitrary: t st sk)
  case 0
  have gt: "(t + d) - lastPing c > HEARTBEAT_MS cfg" using "0.prems"(7) by simp
  have "heartbeats cfg ws t (Suc 0) st = onHeartbeat cfg ws (t + d) st"
    using heartbeats_armed[OF "0.prems"(1,2), of cfg t 0] by simp
  also have "\<dots> = st\<lparr>conns := (conns st)(ws \<mapsto> c\<lparr>heartbeat := None\<rparr>),
              sockets := (sockets st)(ws \<mapsto> sk\<lparr>readyState := CLOSING, closeCode := Some 1000\<rparr>)\<rparr>"
    using "0.prems"(1-4) gt by (rule onHeartbeat_timeout)
  finally show ?case by simp
next
  case (Suc n)
  let ?sk1 = "sk\<lparr>outbox := outbox sk @ [Ping]\<rparr>"
  let ?st1 = "st\<lparr>sockets := (sockets st)(ws \<mapsto> ?sk1)\<rparr>"
  have "0 \<le> int n * d" using Suc.prems(5) by simp
  then have le: "(t + d) - lastPing c \<le> HEARTBEAT_MS cfg"
    and le': "(t + d) + int n * d \<le> lastPing c + HEARTBEAT_MS cfg"
    using Suc.prems(6) by (simp_all add: algebra_simps)
  have gt': "lastPing c + HEARTBEAT_MS cfg < (t + d) + int (Suc n) * d"
    using Suc.prems(7) by (simp add: algebra_simps)
  have 1: "onHeartbeat cfg ws (t + d) st = ?st1"
    using Suc.prems(1-4) le by (rule onHeartbeat_ping)
  have 2: "heartbeats cfg ws t (Suc (Suc n)) st = heartbeats cfg ws (t + d) (Suc n) ?st1"
    using heartbeats_armed[OF Suc.prems(1,2), of cfg t "Suc n"] 1 by simp
  have "conns (heartbeats cfg ws (t + d) (Suc n) ?st1) ws = Some (c\<lparr>heartbeat := None\<rparr>)
         \<and> sockets (heartbeats cfg ws (t + d) (Suc n) ?st1) ws
             = Some (?sk1\<lparr>outbox := outbox ?sk1 @ replicate n Ping,
                        readyState := CLOSING, closeCode := Some 1000\<rparr>)"
    using Suc.prems(1,2,4,5) le' gt' by (intro Suc.IH) simp_all
  then show ?case unfolding 2 by (simp add: replicate_app_Cons_same)
qed

lemma closing_tick:
  fixes x p :: int
  assumes "0 \<le> x" "0 < p"
  shows "int (nat (x div p)) * p \<le> x" and "x < int (Suc (nat (x div p))) * p"
proof -
  define q where "q = x div p"
  define r where "r = x mod p"
  have d: "0 \<le> q" using assms by (simp add: q_def pos_imp_zdiv_nonneg_iff)
  have m: "x = q * p + r" by (simp add: q_def r_def)
  have b: "0 \<le> r" "r < p" using assms(2) by (simp_all add: r_def)
  have n: "int (nat q) = q" using d by simp
  have s: "int (Suc (nat q)) * p = q * p + p" using d by (simp add: algebra_simps)
  show "int (nat (x div p)) * p \<le> x"
    unfolding q_def[symmetric] n using m b by linarith
  show "x < int (Suc (nat (x div p))) * p"
    unfolding q_def[symmetric] s using m b by linarith
qed

lemma heartbeatDelay_half:
  "2 \<le> HEARTBEAT_MS cfg \<Longrightarrow> HEARTBEAT_MS cfg \<le> 4294967294 \<Longrightarrow>
   heartbeatDelay cfg = HEARTBEAT_MS cfg div 2"
  by (simp add: heartbeatDelay_def)

lemma onConnection_timer:
  "totalConnections st < MAX_CONNECTIONS cfg \<Longrightarrow>
   timerDelay (onConnection cfg ws now st) ws = Some (heartbeatDelay cfg)"
  by (simp add: onConnection_def timerDelay_def)

text \<open>
  C6: in a reachable state, for an admitted connection whose timer is armed and whose
  socket is open. The timer's delay is the one \<open>setInterval\<close> was given when the
  connection was admitted, \<open>HEARTBEAT_MS div 2\<close> for a \<open>HEARTBEAT_MS\<close> from 2 to
  4294967294, and every newly admitted connection gets a timer with that delay. A firing
  of the timer more than \<open>HEARTBEAT_MS\<close> after the last acknowledgment cancels the
  timer and sends the socket a close frame with code 1000; a firing at most
  \<open>HEARTBEAT_MS\<close> after it sends a ping and changes nothing else; a pong sets the time
  of the last acknowledgment to the current time. When the timer fired last (or was
  started) at a time \<open>t\<close> no later than the last acknowledgment plus \<open>HEARTBEAT_MS\<close>,
  and no pong arrives any more, then some firing closes the socket with code 1000 and
  cancels the timer, every firing before it having sent a ping, and that firing comes
  more than one \<open>HEARTBEAT_MS\<close> and at most one and a half \<open>HEARTBEAT_MS\<close> after the
  last acknowledgment.
\<close>

theorem heartbeat_monitor:
  assumes "reachable cfg st" and "conns st ws = Some c" and "heartbeat c = Some d"
    and "sockets st ws = Some sk" and "readyState sk = OPEN"
  shows "d = heartbeatDelay cfg
    \<and> (2 \<le> HEARTBEAT_MS cfg \<and> HEARTBEAT_MS cfg \<le> 4294967294 \<longrightarrow> d = HEARTBEAT_MS cfg div 2)
    \<and> (totalConnections st < MAX_CONNECTIONS cfg \<longrightarrow>
          timerDelay (onConnection cfg ws' now st) ws' = Some (heartbeatDelay cfg))
    \<and> (now - lastPing c > HEARTBEAT_MS cfg \<longrightarrow>
            onHeartbeat cfg ws now st =
              st\<lparr>conns := (conns st)(ws \<mapsto> c\<lparr>heartbeat := None\<rparr>),
                 sockets := (sockets st)(ws \<mapsto> sk\<lparr>readyState := CLOSING, closeCode := Some 1000\<rparr>)\<rparr>)
    \<and> (now - lastPing c \<le> HEARTBEAT_MS cfg \<longrightarrow>
            onHeartbeat cfg ws now st =
              st\<lparr>sockets := (sockets st)(ws \<mapsto> sk\<lparr>outbox := outbox sk @ [Ping]\<rparr>)\<rparr>)
    \<and> onPong ws now st = st\<lparr>conns := (conns st)(ws \<mapsto> c\<lparr>lastPing := now\<rparr>)\<rparr>
    \<and> (2 \<le> HEARTBEAT_MS cfg \<and> HEARTBEAT_MS cfg \<le> 4294967294
         \<and> t \<le> lastPing c + HEARTBEAT_MS cfg \<longrightarrow>
          (\<exists>n. HEARTBEAT_MS cfg < t + int (Suc n) * (HEARTBEAT_MS cfg div 2) - lastPing c
             \<and> 2 * (t + int (Suc n) * (HEARTBEAT_MS cfg div 2) - lastPing c) \<le> 3 * HEARTBEAT_MS cfg
             \<and> sockets (heartbeats cfg ws t n st) ws
                  = Some (sk\<lparr>outbox := outbox sk @ replicate n Ping\<rparr>)
             \<and> timerArmed (heartbeats cfg ws t n st) ws
             \<and> sockets (heartbeats cfg ws t (Suc n) st) ws
                  = Some (sk\<lparr>outbox := outbox sk @ replicate n Ping,
                             readyState := CLOSING, closeCode := Some 1000\<rparr>)
             \<and> \<not> timerArmed (heartbeats cfg ws t (Suc n) st) ws))"
proof -
  let ?H = "HEARTBEAT_MS cfg"
  let ?L = "lastPing c"
  have td: "timerDelay st ws = Some d" using assms(2,3) by (simp add: timerDelay_def)
  have d: "d = heartbeatDelay cfg" using assms(1) td by (rule reachable_timer)
  have dh: "d = ?H div 2" if "2 \<le> ?H" "?H \<le> 4294967294"
    using d heartbeatDelay_half[OF that] by simp
  have oc: "totalConnections st < MAX_CONNECTIONS cfg \<longrightarrow>
          timerDelay (onConnection cfg ws' now st) ws' = Some (heartbeatDelay cfg)"
    using onConnection_timer by blast
  have a: "now - ?L > ?H \<longrightarrow>
            onHeartbeat cfg ws now st =
              st\<lparr>conns := (conns st)(ws \<mapsto> c\<lparr>heartbeat := None\<rparr>),
                 sockets := (sockets st)(ws \<mapsto> sk\<lparr>readyState := CLOSING, closeCode := Some 1000\<rparr>)\<rparr>"
    using onHeartbeat_timeout[OF assms(2-5)] by blast
  have b: "now - ?L \<le> ?H \<longrightarrow>
            onHeartbeat cfg ws now st =
              st\<lparr>sockets := (sockets st)(ws \<mapsto> sk\<lparr>outbox := outbox sk @ [Ping]\<rparr>)\<rparr>"
    using onHeartbeat_ping[OF assms(2-5)] by blast
  have c: "onPong ws now st = st\<lparr>conns := (conns st)(ws \<mapsto> c\<lparr>lastPing := now\<rparr>)\<rparr>"
    using assms(2) by (rule onPong_state)
  have e: "\<exists>n. ?H < t + int (Suc n) * (?H div 2) - ?L
             \<and> 2 * (t + int (Suc n) * (?H div 2) - ?L) \<le> 3 * ?H
             \<and> sockets (heartbeats cfg ws t n st) ws
                  = Some (sk\<lparr>outbox := outbox sk @ replicate n Ping\<rparr>)
             \<and> timerArmed (heartbeats cfg ws t n st) ws
             \<and> sockets (heartbeats cfg ws t (Suc n) st) ws
                  = Some (sk\<lparr>outbox := outbox sk @ replicate n Ping,
                             readyState := CLOSING, closeCode := Some 1000\<rparr>)
             \<and> \<not> timerArmed (heartbeats cfg ws t (Suc n) st) ws"
    if h: "2 \<le> ?H" "?H \<le> 4294967294" "t \<le> ?L + ?H"
  proof -
    have dd: "d = ?H div 2" using h(1,2) by (rule dh)
    have p: "0 < d" using h(1) dd by simp
    have half: "2 * d \<le> ?H" using dd by simp
    define x where "x = ?L + ?H - t"
    define n where "n = nat (x div d)"
    have x: "0 \<le> x" using h(3) by (simp add: x_def)
    have lo: "int n * d \<le> x" and hi: "x < int (Suc n) * d"
      using closing_tick[OF x p] by (simp_all add: n_def)
    have le: "t + int n * d \<le> ?L + ?H" using lo by (simp add: x_def)
    have gt: "?L + ?H < t + int (Suc n) * d" using hi by (simp add: x_def)
    have p0: "0 \<le> d" using p by simp
    have alive: "conns (heartbeats cfg ws t n st) ws = Some c"
      "sockets (heartbeats cfg ws t n st) ws = Some (sk\<lparr>outbox := outbox sk @ replicate n Ping\<rparr>)"
      using heartbeats_pings[OF assms(2-5) p0 le] by simp_all
    have closed: "conns (heartbeats cfg ws t (Suc n) st) ws = Some (c\<lparr>heartbeat := None\<rparr>)"
      "sockets (heartbeats cfg ws t (Suc n) st) ws
             = Some (sk\<lparr>outbox := outbox sk @ replicate n Ping,
                        readyState := CLOSING, closeCode := Some 1000\<rparr>)"
      using heartbeats_closes[OF assms(2-5) p0 le gt] by simp_all
    have 1: "?H < t + int (Suc n) * d - ?L" using gt by simp
    define T where "T = t + int (Suc n) * d"
    have "T \<le> ?L + ?H + d" using lo by (simp add: T_def x_def algebra_simps)
    then have "T - ?L \<le> ?H + d" by simp
    then have "2 * (T - ?L) \<le> 2 * ?H + 2 * d" by simp
    also have "\<dots> \<le> 2 * ?H + ?H" using half by simp
    also have "\<dots> = 3 * ?H" by simp
    finally have "2 * (T - ?L) \<le> 3 * ?H" .
    then have 2: "2 * (t + int (Suc n) * d - ?L) \<le> 3 * ?H" by (simp only: T_def)
    have 3: "timerArmed (heartbeats cfg ws t n st) ws"
      using alive(1) assms(3) by (simp add: timerArmed_def)
    have 5: "\<not> timerArmed (heartbeats cfg ws t (Suc n) st) ws"
      using closed(1) by (simp add: timerArmed_def)
    from 1 2 alive(2) 3 closed(2) 5 show ?thesis unfolding dd by blast
  qed
  from d dh oc a b c e show ?thesis by blast
qed


theorem heartbeat_monitor_witness:
  "reachable default_config pairedServer
   \<and> conns pairedServer 3
       = Some \<lparr>agentId = None, role = None, lastPing = 0, rateCount = 0, heartbeat = Some 15000\<rparr>
   \<and> sockets pairedServer 3 = Some newSocket \<and> readyState newSocket = OPEN
   \<and> HEARTBEAT_MS default_config = 30000
   \<and> (15000::int) = HEARTBEAT_MS default_config div 2
   \<and> onHeartbeat default_config 3 30000 pairedServer
       = pairedServer\<lparr>sockets := (sockets pairedServer)(3 \<mapsto>
           \<lparr>readyState = OPEN, closeCode = None, outbox = [Ping]\<rparr>)\<rparr>
   \<and> onHeartbeat default_config 3 30001 pairedServer
       = pairedServer\<lparr>conns := (conns pairedServer)(3 \<mapsto>
             \<lparr>agentId = None, role = None, lastPing = 0, rateCount = 0, heartbeat = None\<rparr>),
           sockets := (sockets pairedServer)(3 \<mapsto>
             \<lparr>readyState = CLOSING, closeCode = Some 1000, outbox = []\<rparr>)\<rparr>
   \<and> (\<exists>n. 30000 < int (Suc n) * 15000 \<and> 2 * (int (Suc n) * 15000) \<le> 90000
          \<and> sockets (heartbeats default_config 3 0 (Suc n) pairedServer) 3
               = Some \<lparr>readyState = CLOSING, closeCode = Some 1000, outbox = replicate n Ping\<rparr>
          \<and> \<not> timerArmed (heartbeats default_config 3 0 (Suc n) pairedServer) 3)"
proof -
  let ?c = "\<lparr>agentId = None, role = None, lastPing = 0, rateCount = 0, heartbeat = Some 15000\<rparr>"
  have h0: "reachable default_config pairedServer" by (rule reachable_pairedServer)
  have h1: "conns pairedServer 3 = Some ?c" by (simp add: pairedServer_def)
  have h2: "heartbeat ?c = Some 15000" by simp
  have h3: "sockets pairedServer 3 = Some newSocket" by (simp add: pairedServer_def)
  have h4: "readyState newSocket = OPEN" by (simp add: newSocket_def)
  have H: "HEARTBEAT_MS default_config = 30000"
    by (simp add: default_config_def configure_def envNumber_def)
  note thm1 = heartbeat_monitor[OF h0 h1 h2 h3 h4, where now = 30000 and t = 0]
  note thm2 = heartbeat_monitor[OF h0 h1 h2 h3 h4, where now = 30001 and t = 0]
  have d: "(15000::int) = HEARTBEAT_MS default_config div 2"
    using thm1 by (simp add: H)
  have a: "onHeartbeat default_config 3 30000 pairedServer
       = pairedServer\<lparr>sockets := (sockets pairedServer)(3 \<mapsto>
           \<lparr>readyState = OPEN, closeCode = None, outbox = [Ping]\<rparr>)\<rparr>"
    using thm1 by (simp add: H newSocket_def)
  have b: "onHeartbeat default_config 3 30001 pairedServer
       = pairedServer\<lparr>conns := (conns pairedServer)(3 \<mapsto>
             \<lparr>agentId = None, role = None, lastPing = 0, rateCount = 0, heartbeat = None\<rparr>),
           sockets := (sockets pairedServer)(3 \<mapsto>
             \<lparr>readyState = CLOSING, closeCode = Some 1000, outbox = []\<rparr>)\<rparr>"
    using thm2 by (simp add: H newSocket_def)
  have "\<exists>n. HEARTBEAT_MS default_config
               < 0 + int (Suc n) * (HEARTBEAT_MS default_config div 2) - lastPing ?c
             \<and> 2 * (0 + int (Suc n) * (HEARTBEAT_MS default_config div 2) - lastPing ?c)
                  \<le> 3 * HEARTBEAT_MS default_config
             \<and> sockets (heartbeats default_config 3 0 n pairedServer) 3
                  = Some (newSocket\<lparr>outbox := outbox newSocket @ replicate n Ping\<rparr>)
             \<and> timerArmed (heartbeats default_config 3 0 n pairedServer) 3
             \<and> sockets (heartbeats default_config 3 0 (Suc n) pairedServer) 3
                  = Some (newSocket\<lparr>outbox := outbox newSocket @ replicate n Ping,
                             readyState := CLOSING, closeCode := Some 1000\<rparr>)
             \<and> \<not> timerArmed (heartbeats default_config 3 0 (Suc n) pairedServer) 3"
    using thm1 by (simp add: H)
  then have c: "\<exists>n. 30000 < int (Suc n) * 15000 \<and> 2 * (int (Suc n) * 15000) \<le> 90000
          \<and> sockets (heartbeats default_config 3 0 (Suc n) pairedServer) 3
               = Some \<lparr>readyState = CLOSING, closeCode = Some 1000, outbox = replicate n Ping\<rparr>
          \<and> \<not> timerArmed (heartbeats default_config 3 0 (Suc n) pairedServer) 3"
    by (auto simp: H newSocket_def)
  from h0 h1 h3 h4 H d a b c show ?thesis by blast
qed

end
